theory Spec2Isabelle
  imports Complex_Main
begin

section \<open>Python exceptions\<close>

text \<open>
  Every exception that the modelled code can raise is a value. \<open>AssertionError\<close> is a failed
  \<^verbatim>\<open>assert\<close>, \<open>IndexError\<close> an out-of-range tensor or dataset index, \<open>ValueError\<close> what
  Python's \<^verbatim>\<open>len()\<close> raises when \<^verbatim>\<open>__len__\<close> returns a negative number,
  \<open>ZeroDivisionError\<close> a true division by zero, \<open>RuntimeError\<close> what \<^verbatim>\<open>torch.cat\<close> raises on
  an empty list of tensors, and \<open>CallbackError\<close> anything raised by a
  caller-supplied function (labelling function, acquisition function, body of a scope).
\<close>

datatype error =
  AssertionError | IndexError | ValueError | ZeroDivisionError | RuntimeError | CallbackError

section \<open>The annealer (\<^verbatim>\<open>alr/training/pseudo_label_trainer.py\<close>)\<close>

text \<open>
  The fields \<^verbatim>\<open>_step\<close>, \<^verbatim>\<open>_T1\<close>, \<^verbatim>\<open>_T2\<close> are Python integers and \<^verbatim>\<open>_alpha\<close> is a float. The float
  is idealised as a real number: rounding is not modelled.
\<close>

record Annealer =
  an_step :: int
  an_T1 :: int
  an_T2 :: int
  an_alpha :: real

definition Annealer_init :: "int \<Rightarrow> int \<Rightarrow> int \<Rightarrow> real \<Rightarrow> Annealer" where
  "Annealer_init step T1 T2 alpha =
     \<lparr>an_step = step, an_T1 = T1, an_T2 = T2, an_alpha = alpha\<rparr>"

definition Annealer_step :: "Annealer \<Rightarrow> Annealer" where
  "Annealer_step a = a\<lparr>an_step := an_step a + 1\<rparr>"

text \<open>
  The property \<^verbatim>\<open>weight\<close>. Python's \<^verbatim>\<open>/\<close> on two integers is true division and raises
  \<^verbatim>\<open>ZeroDivisionError\<close> when the divisor is zero.
\<close>

definition true_div :: "int \<Rightarrow> int \<Rightarrow> error + real" where
  "true_div p q = (if q = 0 then Inl ZeroDivisionError else Inr (real_of_int p / real_of_int q))"

definition Annealer_weight :: "Annealer \<Rightarrow> error + real" where
  "Annealer_weight a =
     (if an_step a < an_T1 a then Inr 0
      else if an_step a > an_T2 a then Inr (an_alpha a)
      else (case true_div (an_step a - an_T1 a) (an_T2 a - an_T1 a) of
              Inl e \<Rightarrow> Inl e
            | Inr q \<Rightarrow> Inr (q * an_alpha a)))"

section \<open>Tensors and datasets\<close>

text \<open>
  A one-dimensional tensor is a list. Indexing a tensor of length \<open>n\<close> with an integer accepts
  \<open>-n \<le> i < n\<close>, a negative index counting from the end, and raises \<^verbatim>\<open>IndexError\<close> otherwise.
  Indexing with a sequence of integers (\<^verbatim>\<open>t[idxs]\<close>) indexes with each of them, in order.
\<close>

definition tensor_index :: "'a list \<Rightarrow> int \<Rightarrow> error + 'a" where
  "tensor_index xs i =
     (let n = int (length xs)
      in if 0 \<le> i \<and> i < n then Inr (xs ! nat i)
         else if - n \<le> i \<and> i < 0 then Inr (xs ! nat (n + i))
         else Inl IndexError)"

fun tensor_index_list :: "'a list \<Rightarrow> int list \<Rightarrow> error + 'a list" where
  "tensor_index_list xs [] = Inr []"
| "tensor_index_list xs (i # is) =
     (case tensor_index xs i of
        Inl e \<Rightarrow> Inl e
      | Inr v \<Rightarrow>
          (case tensor_index_list xs is of
             Inl e \<Rightarrow> Inl e
           | Inr vs \<Rightarrow> Inr (v # vs)))"

text \<open>\<^verbatim>\<open>torch.nonzero(m).flatten()\<close>: the positions of the true entries, ascending.\<close>

definition nonzero :: "bool list \<Rightarrow> nat list" where
  "nonzero m = filter (\<lambda>i. m ! i) [0..<length m]"

text \<open>\<^verbatim>\<open>m[positions] = v\<close> for positions that have been read from \<open>m\<close> before.\<close>

definition index_put :: "'a list \<Rightarrow> nat list \<Rightarrow> 'a \<Rightarrow> 'a list" where
  "index_put m positions v = fold (\<lambda>p acc. acc[p := v]) positions m"

text \<open>
  A map-style dataset is a finite indexable collection. \<open>Subset\<close> and \<open>ConcatDataset\<close> are the
  two lazy views of \<^verbatim>\<open>torch.utils.data\<close> that the data manager builds: a subset keeps the
  dataset and a list of positions in it, a concatenation keeps its two parts. \<open>ds_len\<close> is
  \<^verbatim>\<open>len\<close> of such a view.
\<close>

datatype 'a dataset =
  Data "'a list"
| Subset "'a dataset" "nat list"
| ConcatDataset "'a dataset" "'a dataset"

fun ds_len :: "'a dataset \<Rightarrow> nat" where
  "ds_len (Data xs) = length xs"
| "ds_len (Subset d positions) = length positions"
| "ds_len (ConcatDataset d1 d2) = ds_len d1 + ds_len d2"

section \<open>The unlabelled pool (\<^verbatim>\<open>alr/data/__init__.py\<close>, class \<^verbatim>\<open>UnlabelledDataset\<close>)\<close>

text \<open>
  The backing dataset is the list of its items, and a pool item is a pair of a feature and
  a label. The fields \<^verbatim>\<open>_dataset\<close>, \<^verbatim>\<open>_label_fn\<close>,
  \<^verbatim>\<open>_mask\<close>, \<^verbatim>\<open>_len\<close> and \<^verbatim>\<open>_idx_mask\<close> are written with the prefix \<open>u\<close>. \<^verbatim>\<open>_mask\<close> is the mask,
  \<^verbatim>\<open>_idx_mask\<close> the translation from logical to absolute positions, \<^verbatim>\<open>_len\<close> a Python integer
  that \<^verbatim>\<open>__len__\<close> reports. The labelling function is supplied by the caller and may raise.
\<close>

record ('x, 'y) UnlabelledDataset =
  u_dataset :: "('x \<times> 'y) list"
  u_label_fn :: "(('x \<times> 'y) dataset \<Rightarrow> error + ('x \<times> 'y) dataset) option"
  u_mask :: "bool list"
  u_len :: int
  u_idx_mask :: "nat list"
  debug :: bool

text \<open>The constructor: its assertion refuses debug mode together with a labelling function.\<close>

definition UnlabelledDataset_init ::
  "('x \<times> 'y) list \<Rightarrow> (('x \<times> 'y) dataset \<Rightarrow> error + ('x \<times> 'y) dataset) option \<Rightarrow> bool
     \<Rightarrow> error + ('x, 'y) UnlabelledDataset" where
  "UnlabelledDataset_init dataset label_fn dbg =
     (if dbg \<and> label_fn \<noteq> None then Inl AssertionError
      else Inr \<lparr>u_dataset = dataset, u_label_fn = label_fn,
                u_mask = replicate (length dataset) True,
                u_len = int (length dataset),
                u_idx_mask = [0..<length dataset],
                debug = dbg\<rparr>)"

text \<open>
  The statement \<^verbatim>\<open>if self._label_fn: labelled = self._label_fn(labelled)\<close>.
\<close>

definition apply_label_fn ::
  "('x, 'y) UnlabelledDataset \<Rightarrow> ('x \<times> 'y) dataset \<Rightarrow> error + ('x \<times> 'y) dataset" where
  "apply_label_fn u d = (case u_label_fn u of None \<Rightarrow> Inr d | Some f \<Rightarrow> f d)"

text \<open>
  \<^verbatim>\<open>label(idxs)\<close>. The result pairs the object's state when the call ends with the exception
  raised or the dataset returned, so that what a failing call has mutated is visible. The
  statements are in the source's order: the two tensor reads and the two assertions, the
  subset and the labelling function, then the three assignments.
\<close>

definition label ::
  "('x, 'y) UnlabelledDataset \<Rightarrow> int list
     \<Rightarrow> ('x, 'y) UnlabelledDataset \<times> (error + ('x \<times> 'y) dataset)" where
  "label u idxs =
     (case tensor_index_list (u_idx_mask u) idxs of
        Inl e \<Rightarrow> (u, Inl e)
      | Inr positions \<Rightarrow>
          (case tensor_index_list (u_mask u) (map int positions) of
             Inl e \<Rightarrow> (u, Inl e)
           | Inr bits \<Rightarrow>
               if \<not> list_all (\<lambda>b. b) bits then (u, Inl AssertionError)
               else if u_len u = 0 then (u, Inl AssertionError)
               else
                 (case apply_label_fn u (Subset (Data (u_dataset u)) positions) of
                    Inl e \<Rightarrow> (u, Inl e)
                  | Inr labelled \<Rightarrow>
                      (let mask' = index_put (u_mask u) positions False
                       in (u\<lparr>u_mask := mask',
                              u_idx_mask := nonzero mask',
                              u_len := u_len u - int (length idxs)\<rparr>,
                           Inr labelled)))))"

text \<open>
  \<^verbatim>\<open>__getitem__(idx)\<close> returns the item of the backing dataset as it is, or its component
  \<^verbatim>\<open>[0]\<close>.
\<close>

datatype ('x, 'y) fetched = Item "'x \<times> 'y" | Feature 'x

definition fetch :: "('x, 'y) UnlabelledDataset \<Rightarrow> int \<Rightarrow> error + ('x \<times> 'y)" where
  "fetch u idx =
     (case tensor_index (u_idx_mask u) idx of
        Inl e \<Rightarrow> Inl e
      | Inr k \<Rightarrow> if k < length (u_dataset u) then Inr (u_dataset u ! k) else Inl IndexError)"

definition getitem :: "('x, 'y) UnlabelledDataset \<Rightarrow> int \<Rightarrow> error + ('x, 'y) fetched" where
  "getitem u idx =
     (if u_label_fn u \<noteq> None \<or> debug u
      then (case fetch u idx of Inl e \<Rightarrow> Inl e | Inr item \<Rightarrow> Inr (Item item))
      else (case fetch u idx of Inl e \<Rightarrow> Inl e | Inr item \<Rightarrow> Inr (Feature (fst item))))"

text \<open>\<^verbatim>\<open>len(u)\<close>: Python raises \<^verbatim>\<open>ValueError\<close> when \<^verbatim>\<open>__len__\<close> returns a negative number.\<close>

definition py_len :: "('x, 'y) UnlabelledDataset \<Rightarrow> error + int" where
  "py_len u = (if u_len u < 0 then Inl ValueError else Inr (u_len u))"

definition convert_idx :: "('x, 'y) UnlabelledDataset \<Rightarrow> int list \<Rightarrow> error + nat list" where
  "convert_idx u idxs = tensor_index_list (u_idx_mask u) idxs"

definition labelled_indices :: "('x, 'y) UnlabelledDataset \<Rightarrow> nat list" where
  "labelled_indices u = nonzero (map Not (u_mask u))"

definition reset :: "('x, 'y) UnlabelledDataset \<Rightarrow> ('x, 'y) UnlabelledDataset" where
  "reset u = u\<lparr>u_mask := replicate (length (u_dataset u)) True,
                u_idx_mask := [0..<length (u_dataset u)],
                u_len := int (length (u_dataset u))\<rparr>"

text \<open>
  \<^verbatim>\<open>true_labels\<close> is a generator-based context manager. \<open>true_labels body u\<close> is the statement
  \<^verbatim>\<open>with u.true_labels(): body\<close>: the code before \<^verbatim>\<open>yield\<close>, the body, and the code after
  \<^verbatim>\<open>yield\<close>. The generator has no \<^verbatim>\<open>try\<close>/\<^verbatim>\<open>finally\<close>, so an exception raised by the body
  leaves through the \<^verbatim>\<open>yield\<close> and the statement after it is not executed.
\<close>

definition true_labels ::
  "(('x, 'y) UnlabelledDataset \<Rightarrow> ('x, 'y) UnlabelledDataset \<times> (error + 'r))
     \<Rightarrow> ('x, 'y) UnlabelledDataset \<Rightarrow> ('x, 'y) UnlabelledDataset \<times> (error + 'r)" where
  "true_labels body u =
     (if debug u then body u
      else (case body (u\<lparr>debug := True\<rparr>) of
              (u', Inl e) \<Rightarrow> (u', Inl e)
            | (u', Inr r) \<Rightarrow> (u'\<lparr>debug := False\<rparr>, Inr r)))"

section \<open>The data manager (\<^verbatim>\<open>alr/data/__init__.py\<close>, class \<^verbatim>\<open>DataManager\<close>)\<close>

text \<open>
  The acquisition function is supplied by the caller: given the pool view and \<open>b\<close> it returns
  an array of logical indices, or raises. The fields \<^verbatim>\<open>_old_labelled\<close>, \<^verbatim>\<open>_labelled\<close>,
  \<^verbatim>\<open>_unlabelled\<close> and \<^verbatim>\<open>_a_fn\<close> are written with the prefix \<open>dm\<close>.
\<close>

record ('x, 'y) DataManager =
  dm_old_labelled :: "('x \<times> 'y) dataset"
  dm_labelled :: "('x \<times> 'y) dataset"
  dm_unlabelled :: "('x, 'y) UnlabelledDataset"
  dm_a_fn :: "('x, 'y) UnlabelledDataset \<Rightarrow> int \<Rightarrow> error + int list"

definition DataManager_init ::
  "('x \<times> 'y) dataset \<Rightarrow> ('x, 'y) UnlabelledDataset
     \<Rightarrow> (('x, 'y) UnlabelledDataset \<Rightarrow> int \<Rightarrow> error + int list) \<Rightarrow> ('x, 'y) DataManager" where
  "DataManager_init labelled unlabelled acquisition_fn =
     \<lparr>dm_old_labelled = labelled, dm_labelled = labelled,
      dm_unlabelled = unlabelled, dm_a_fn = acquisition_fn\<rparr>"

definition n_labelled :: "('x, 'y) DataManager \<Rightarrow> int" where
  "n_labelled dm = int (ds_len (dm_labelled dm))"

definition n_unlabelled :: "('x, 'y) DataManager \<Rightarrow> error + int" where
  "n_unlabelled dm = py_len (dm_unlabelled dm)"

definition append_to_labelled ::
  "('x, 'y) DataManager \<Rightarrow> ('x \<times> 'y) dataset \<Rightarrow> ('x, 'y) DataManager" where
  "append_to_labelled dm dataset = dm\<lparr>dm_labelled := ConcatDataset (dm_labelled dm) dataset\<rparr>"

definition DataManager_reset :: "('x, 'y) DataManager \<Rightarrow> ('x, 'y) DataManager" where
  "DataManager_reset dm =
     dm\<lparr>dm_unlabelled := reset (dm_unlabelled dm), dm_labelled := dm_old_labelled dm\<rparr>"

text \<open>
  \<^verbatim>\<open>acquire(b, transform)\<close>, statement by statement. The result pairs the manager's state
  when the call ends with the exception raised or the pair that is returned: the absolute
  indices and the freshly labelled subset.
\<close>

definition acquire ::
  "('x, 'y) DataManager \<Rightarrow> int
     \<Rightarrow> (('x, 'y) UnlabelledDataset \<Rightarrow> ('x, 'y) UnlabelledDataset) option
     \<Rightarrow> ('x, 'y) DataManager \<times> (error + nat list \<times> ('x \<times> 'y) dataset)" where
  "acquire dm b transform =
     (case n_unlabelled dm of
        Inl e \<Rightarrow> (dm, Inl e)
      | Inr n \<Rightarrow>
          if \<not> b \<le> n then (dm, Inl AssertionError)
          else
            (case dm_a_fn dm (case transform of
                                None \<Rightarrow> dm_unlabelled dm
                              | Some t \<Rightarrow> t (dm_unlabelled dm)) b of
               Inl e \<Rightarrow> (dm, Inl e)
             | Inr idxs \<Rightarrow>
                 if int (length idxs) \<noteq> b then (dm, Inl AssertionError)
                 else
                   (case convert_idx (dm_unlabelled dm) idxs of
                      Inl e \<Rightarrow> (dm, Inl e)
                    | Inr true_idxs \<Rightarrow>
                        (case label (dm_unlabelled dm) idxs of
                           (u', Inl e) \<Rightarrow> (dm\<lparr>dm_unlabelled := u'\<rparr>, Inl e)
                         | (u', Inr labelled) \<Rightarrow>
                             (append_to_labelled (dm\<lparr>dm_unlabelled := u'\<rparr>) labelled,
                              Inr (true_idxs, labelled))))))"

text \<open>
  A sequence of \<^verbatim>\<open>acquire\<close> calls that all succeed. Each call names the behaviour of the
  acquisition function at that call (it may be stateful or random), the batch size and the
  optional transform. \<open>None\<close> means that one of the calls raised.
\<close>

fun acquire_seq ::
  "('x, 'y) DataManager
     \<Rightarrow> ((('x, 'y) UnlabelledDataset \<Rightarrow> int \<Rightarrow> error + int list) \<times> int
          \<times> (('x, 'y) UnlabelledDataset \<Rightarrow> ('x, 'y) UnlabelledDataset) option) list
     \<Rightarrow> ('x, 'y) DataManager option" where
  "acquire_seq dm [] = Some dm"
| "acquire_seq dm ((f, b, t) # calls) =
     (case acquire (dm\<lparr>dm_a_fn := f\<rparr>) b t of
        (dm', Inl e) \<Rightarrow> None
      | (dm', Inr r) \<Rightarrow> acquire_seq dm' calls)"

section \<open>The max-entropy acquisition function (\<^verbatim>\<open>max_ent10/train.py\<close>, class \<^verbatim>\<open>MaxEnt\<close>)\<close>

text \<open>
  A float is a finite number or one of \<^verbatim>\<open>inf\<close>, \<^verbatim>\<open>-inf\<close>, \<^verbatim>\<open>nan\<close>; finite floats are compared
  as real numbers. \<open>finite_value\<close> reads a finite float; the call below applies it only after
  the assertion that every score is finite, so its value on \<open>NonFinite\<close> is never used.
\<close>

datatype float = Finite real | NonFinite

fun isfinite :: "float \<Rightarrow> bool" where
  "isfinite (Finite x) = True"
| "isfinite NonFinite = False"

fun finite_value :: "float \<Rightarrow> real" where
  "finite_value (Finite x) = x"
| "finite_value NonFinite = 0"

text \<open>
  The object keeps the prediction function, the data-loader parameters and the scores of the
  last call. \<open>me_pred_fn\<close> maps a batch to its rows of log-probabilities; \<open>me_loader\<close> is
  \<^verbatim>\<open>DataLoader(X_pool, **self._dl_params)\<close>, the batches of the pool in its fixed order;
  \<open>recent_score\<close> is \<open>None\<close> until the first call.
\<close>

record ('x, 'b, 'r) MaxEnt =
  me_pred_fn :: "'b \<Rightarrow> 'r list"
  me_loader :: "'x list \<Rightarrow> 'b list"
  recent_score :: "float list option"

text \<open>\<^verbatim>\<open>torch.cat\<close> of a list of tensors along the first dimension.\<close>

definition torch_cat :: "'r list list \<Rightarrow> error + 'r list" where
  "torch_cat tensors = (if tensors = [] then Inl RuntimeError else Inr (concat tensors))"

text \<open>\<^verbatim>\<open>result[:b]\<close> for a Python integer \<open>b\<close>.\<close>

definition py_prefix :: "'a list \<Rightarrow> int \<Rightarrow> 'a list" where
  "py_prefix xs b = (if 0 \<le> b then take (nat b) xs else take (length xs - nat (- b)) xs)"

text \<open>
  \<^verbatim>\<open>__call__(X_pool, b)\<close>. Two floating-point computations are parameters: \<open>row_entropy\<close> is
  \<^verbatim>\<open>-(p.exp() * p).sum()\<close> of one row \<open>p\<close> of log-probabilities, and \<open>argsort\<close> is
  \<^verbatim>\<open>torch.argsort(entropy, descending=True)\<close>, which is called on finite scores only.
\<close>

definition MaxEnt_call ::
  "('r \<Rightarrow> float) \<Rightarrow> (real list \<Rightarrow> nat list) \<Rightarrow> ('x, 'b, 'r) MaxEnt \<Rightarrow> 'x list \<Rightarrow> int
     \<Rightarrow> ('x, 'b, 'r) MaxEnt \<times> (error + nat list)" where
  "MaxEnt_call row_entropy argsort m X_pool b =
     (let pool_size = length X_pool
      in case torch_cat (map (me_pred_fn m) (me_loader m X_pool)) of
           Inl e \<Rightarrow> (m, Inl e)
         | Inr preds_N_C \<Rightarrow>
             if length preds_N_C \<noteq> pool_size then (m, Inl AssertionError)
             else
               (let entropy = map row_entropy preds_N_C
                in if \<not> list_all isfinite entropy then (m, Inl AssertionError)
                   else if length entropy \<noteq> pool_size then (m, Inl AssertionError)
                   else
                     (let result = argsort (map finite_value entropy)
                      in (m\<lparr>recent_score := Some entropy\<rparr>, Inr (py_prefix result b)))))"

section \<open>Notions used to state the properties\<close>

text \<open>
  \<open>in_range n i\<close>: the integer \<open>i\<close> is accepted as an index into a tensor of length \<open>n\<close>;
  \<open>wrap n i\<close> is the position it denotes. \<open>popcount\<close> counts the true entries of a mask.
  \<open>translation_ok\<close> says that the mask covers the backing dataset and that the translation
  lists the unmasked positions in ascending order; \<open>pool_ok\<close> adds that the reported length
  is the length of the translation. \<open>positions_of u idxs\<close> are the absolute positions of the
  logical indices \<open>idxs\<close> in the state \<open>u\<close>.
\<close>

definition in_range :: "nat \<Rightarrow> int \<Rightarrow> bool" where
  "in_range n i = (- int n \<le> i \<and> i < int n)"

definition wrap :: "nat \<Rightarrow> int \<Rightarrow> nat" where
  "wrap n i = (if 0 \<le> i then nat i else nat (int n + i))"

definition popcount :: "bool list \<Rightarrow> nat" where
  "popcount m = length (filter (\<lambda>b. b) m)"

definition translation_ok :: "('x, 'y) UnlabelledDataset \<Rightarrow> bool" where
  "translation_ok u = (length (u_mask u) = length (u_dataset u) \<and> u_idx_mask u = nonzero (u_mask u))"

definition pool_ok :: "('x, 'y) UnlabelledDataset \<Rightarrow> bool" where
  "pool_ok u = (translation_ok u \<and> u_len u = int (length (u_idx_mask u)))"

definition positions_of :: "('x, 'y) UnlabelledDataset \<Rightarrow> int list \<Rightarrow> nat list" where
  "positions_of u idxs = map (\<lambda>i. u_idx_mask u ! wrap (length (u_idx_mask u)) i) idxs"

text \<open>
  \<open>keeps_length lf\<close>: the labelling function, when there is one, returns a dataset with as
  many items as the one it is given. \<open>batch_sizes\<close> adds up the batch sizes of a sequence of
  \<^verbatim>\<open>acquire\<close> calls.
\<close>

definition keeps_length ::
  "(('x \<times> 'y) dataset \<Rightarrow> error + ('x \<times> 'y) dataset) option \<Rightarrow> bool" where
  "keeps_length lf = (\<forall>f d d'. lf = Some f \<and> f d = Inr d' \<longrightarrow> ds_len d' = ds_len d)"

definition batch_sizes :: "('f \<times> int \<times> 't) list \<Rightarrow> int" where
  "batch_sizes calls = sum_list (map (\<lambda>(f, b, t). b) calls)"

text \<open>
  \<open>scored_view dm transform\<close> is the view that \<^verbatim>\<open>acquire\<close> hands to the acquisition function.
\<close>

definition scored_view ::
  "('x, 'y) DataManager \<Rightarrow> (('x, 'y) UnlabelledDataset \<Rightarrow> ('x, 'y) UnlabelledDataset) option
     \<Rightarrow> ('x, 'y) UnlabelledDataset" where
  "scored_view dm transform =
     (case transform of None \<Rightarrow> dm_unlabelled dm | Some t \<Rightarrow> t (dm_unlabelled dm))"

text \<open>
  An example: a pool of three labelled items and the view that the constructor builds over
  it (no labelling function, debug mode off).
\<close>

definition example_pool :: "(nat \<times> nat) list" where
  "example_pool = [(1, 10), (2, 20), (3, 30)]"

definition example_view :: "(nat, nat) UnlabelledDataset" where
  "example_view =
     \<lparr>u_dataset = example_pool, u_label_fn = None, u_mask = [True, True, True],
      u_len = 3, u_idx_mask = [0, 1, 2], debug = False\<rparr>"

text \<open>The same pool after all three items have been labelled.\<close>

definition exhausted_view :: "(nat, nat) UnlabelledDataset" where
  "exhausted_view =
     \<lparr>u_dataset = example_pool, u_label_fn = None, u_mask = [False, False, False],
      u_len = 0, u_idx_mask = [], debug = False\<rparr>"

text \<open>
  Two acquisition functions: one returns the logical index \<open>0\<close> twice, the other returns
  the empty array.
\<close>

definition repeating_a_fn :: "(nat, nat) UnlabelledDataset \<Rightarrow> int \<Rightarrow> error + int list" where
  "repeating_a_fn u b = Inr [0, 0]"

definition empty_a_fn :: "(nat, nat) UnlabelledDataset \<Rightarrow> int \<Rightarrow> error + int list" where
  "empty_a_fn u b = Inr []"

text \<open>
  Bodies of a \<^verbatim>\<open>with u.true_labels():\<close> statement: a body takes the view and returns the view
  with an exception or the list of items it has read. \<open>index_body i\<close> reads \<^verbatim>\<open>u[i]\<close>,
  \<open>then_body f g\<close> runs \<open>f\<close> and then \<open>g\<close> (an exception ends the body), and \<open>scope_body\<close> are
  the bodies made of reads, sequences and nested \<^verbatim>\<open>true_labels\<close> scopes.
\<close>

type_synonym ('x, 'y) body =
  "('x, 'y) UnlabelledDataset \<Rightarrow> ('x, 'y) UnlabelledDataset \<times> (error + ('x, 'y) fetched list)"

definition index_body :: "int \<Rightarrow> ('x, 'y) body" where
  "index_body i u = (u, case getitem u i of Inl e \<Rightarrow> Inl e | Inr x \<Rightarrow> Inr [x])"

definition then_body :: "('x, 'y) body \<Rightarrow> ('x, 'y) body \<Rightarrow> ('x, 'y) body" where
  "then_body f g u =
     (case f u of
        (u', Inl e) \<Rightarrow> (u', Inl e)
      | (u', Inr rs) \<Rightarrow>
          (case g u' of
             (u'', Inl e) \<Rightarrow> (u'', Inl e)
           | (u'', Inr rs') \<Rightarrow> (u'', Inr (rs @ rs'))))"

inductive scope_body :: "('x, 'y) body \<Rightarrow> bool" where
  indexing: "scope_body (index_body i)"
| sequence: "scope_body f \<Longrightarrow> scope_body g \<Longrightarrow> scope_body (then_body f g)"
| nested: "scope_body f \<Longrightarrow> scope_body (true_labels f)"

text \<open>
  \<open>descending_argsort s p\<close>: \<open>p\<close> is a permutation of the positions of \<open>s\<close> along which the
  scores do not increase, which is what \<^verbatim>\<open>torch.argsort(s, descending=True)\<close> returns (ties in
  any order). \<open>entropy_of\<close> is the score vector that a call computes.
\<close>

definition descending_argsort :: "real list \<Rightarrow> nat list \<Rightarrow> bool" where
  "descending_argsort s p =
     (distinct p \<and> set p = {..<length s} \<and> sorted_wrt (\<lambda>i j. s ! j \<le> s ! i) p)"

text \<open>
  An example: a prediction function that returns the item itself as its one row, a loader
  with batches of one item, no scores stored yet, and an argsort whose answer is right for
  the scores \<open>[1 / 2, 3, 2]\<close>.
\<close>

definition example_maxent :: "(real, real, real) MaxEnt" where
  "example_maxent = \<lparr>me_pred_fn = (\<lambda>x. [x]), me_loader = map (\<lambda>x. x), recent_score = None\<rparr>"

definition example_argsort :: "real list \<Rightarrow> nat list" where
  "example_argsort s = [1, 2, 0]"

text \<open>A row entropy that is not finite on the row \<open>0\<close>.\<close>

definition example_row_entropy :: "real \<Rightarrow> float" where
  "example_row_entropy r = (if r = 0 then NonFinite else Finite r)"

definition entropy_of :: "('r \<Rightarrow> float) \<Rightarrow> ('x, 'b, 'r) MaxEnt \<Rightarrow> 'x list \<Rightarrow> float list" where
  "entropy_of row_entropy m X_pool =
     map row_entropy (concat (map (me_pred_fn m) (me_loader m X_pool)))"

section \<open>Properties of the annealer\<close>

lemma Annealer_step_funpow:
  "(Annealer_step ^^ n) a = a\<lparr>an_step := an_step a + int n\<rparr>"
  by (induction n) (simp_all add: Annealer_step_def)

lemma ramp_bounds:
  fixes alpha :: real
  assumes "0 \<le> alpha" "T1 \<le> t" "t \<le> T2" "T1 < (T2::int)"
  shows "0 \<le> real_of_int (t - T1) / real_of_int (T2 - T1) * alpha"
    and "real_of_int (t - T1) / real_of_int (T2 - T1) * alpha \<le> alpha"
proof -
  have q0: "0 \<le> real_of_int (t - T1) / real_of_int (T2 - T1)"
    using assms by simp
  have q1: "real_of_int (t - T1) / real_of_int (T2 - T1) \<le> 1"
    using assms by simp
  show "0 \<le> real_of_int (t - T1) / real_of_int (T2 - T1) * alpha"
    using q0 assms(1) by (rule mult_nonneg_nonneg)
  show "real_of_int (t - T1) / real_of_int (T2 - T1) * alpha \<le> alpha"
    using mult_right_mono [OF q1 assms(1)] by simp
qed

lemma ramp_mono:
  fixes alpha :: real
  assumes "0 \<le> alpha" "t \<le> t'" "T1 < (T2::int)"
  shows "real_of_int (t - T1) / real_of_int (T2 - T1) * alpha
       \<le> real_of_int (t' - T1) / real_of_int (T2 - T1) * alpha"
proof -
  have "real_of_int (t - T1) / real_of_int (T2 - T1)
      \<le> real_of_int (t' - T1) / real_of_int (T2 - T1)"
    using assms by (simp add: divide_right_mono)
  then show ?thesis
    using assms(1) by (rule mult_right_mono)
qed

lemma weight_at_mono:
  assumes alpha: "0 \<le> an_alpha a"
    and le: "t \<le> t'"
    and w: "Annealer_weight (a\<lparr>an_step := t\<rparr>) = Inr w"
    and w': "Annealer_weight (a\<lparr>an_step := t'\<rparr>) = Inr w'"
  shows "w \<le> w'"
proof (cases "t' < an_T1 a")
  case True
  then show ?thesis
    using le w w' by (simp add: Annealer_weight_def)
next
  case lo': False
  show ?thesis
  proof (cases "t' > an_T2 a")
    case hi': True
    have "w \<le> an_alpha a"
    proof (cases "t < an_T1 a \<or> t > an_T2 a")
      case True
      then show ?thesis
        using w alpha by (auto simp: Annealer_weight_def split: if_splits)
    next
      case False
      then have "an_T1 a \<le> t" "t \<le> an_T2 a" by auto
      moreover have "an_T1 a \<noteq> an_T2 a"
        using w False by (auto simp: Annealer_weight_def true_div_def split: if_splits)
      ultimately have "an_T1 a < an_T2 a" by linarith
      then show ?thesis
        using w False ramp_bounds(2) [OF alpha \<open>an_T1 a \<le> t\<close> \<open>t \<le> an_T2 a\<close>]
        by (auto simp: Annealer_weight_def true_div_def split: if_splits)
    qed
    moreover have "w' = an_alpha a"
      using w' lo' hi' by (simp add: Annealer_weight_def)
    ultimately show ?thesis by simp
  next
    case False
    with lo' have in': "an_T1 a \<le> t'" "t' \<le> an_T2 a" by auto
    have ne: "an_T1 a \<noteq> an_T2 a"
      using w' in' by (auto simp: Annealer_weight_def true_div_def split: if_splits)
    with in' have lt: "an_T1 a < an_T2 a" by linarith
    have w'_eq: "w' = real_of_int (t' - an_T1 a) / real_of_int (an_T2 a - an_T1 a) * an_alpha a"
      using w' in' ne by (auto simp: Annealer_weight_def true_div_def split: if_splits)
    show ?thesis
    proof (cases "t < an_T1 a")
      case True
      then have "w = 0" using w by (simp add: Annealer_weight_def)
      then show ?thesis
        using w'_eq ramp_bounds(1) [OF alpha in' lt] by simp
    next
      case False
      then have "w = real_of_int (t - an_T1 a) / real_of_int (an_T2 a - an_T1 a) * an_alpha a"
        using w le in' ne by (auto simp: Annealer_weight_def true_div_def split: if_splits)
      then show ?thesis
        using w'_eq ramp_mono [OF alpha le lt] by simp
    qed
  qed
qed

lemma Annealer_weight_total:
  assumes "an_T1 a \<noteq> an_T2 a"
  shows "\<exists>w. Annealer_weight a = Inr w"
  using assms by (simp add: Annealer_weight_def true_div_def)

text \<open>
  Claim C4. The weight is a function of the step counter \<open>t\<close> and the parameters alone (it
  returns a value and leaves the annealer as it is): it is \<open>0\<close> when \<open>t < T1\<close>, otherwise
  \<open>alpha\<close> when \<open>t > T2\<close>, otherwise the linear ramp \<open>alpha * (t - T1) / (T2 - T1)\<close>. The ramp
  is stated where its quotient exists, that is for \<open>T1 \<noteq> T2\<close>. The four values of the example
  schedule \<open>T1 = 0\<close>, \<open>T2 = 700\<close>, \<open>alpha = 3\<close> are computed from it in the witness.
\<close>

theorem Annealer_weight_piecewise:
  "(an_step a < an_T1 a \<longrightarrow> Annealer_weight a = Inr 0) \<and>
   (an_T1 a \<le> an_step a \<and> an_T2 a < an_step a \<longrightarrow> Annealer_weight a = Inr (an_alpha a)) \<and>
   (an_T1 a \<le> an_step a \<and> an_step a \<le> an_T2 a \<and> an_T1 a \<noteq> an_T2 a \<longrightarrow>
      Annealer_weight a =
        Inr (an_alpha a * real_of_int (an_step a - an_T1 a) / real_of_int (an_T2 a - an_T1 a)))"
  by (simp add: Annealer_weight_def true_div_def)

theorem Annealer_weight_piecewise_witness:
  "Annealer_weight (Annealer_init 0 0 700 3) = Inr 0 \<and>
   Annealer_weight (Annealer_init 350 0 700 3) = Inr (3 / 2) \<and>
   Annealer_weight (Annealer_init 700 0 700 3) = Inr 3 \<and>
   Annealer_weight (Annealer_init 1000 0 700 3) = Inr 3 \<and>
   Annealer_weight (Annealer_init (- 1) 0 700 3) = Inr 0"
  using Annealer_weight_piecewise [of "Annealer_init 0 0 700 3"]
    Annealer_weight_piecewise [of "Annealer_init 350 0 700 3"]
    Annealer_weight_piecewise [of "Annealer_init 700 0 700 3"]
    Annealer_weight_piecewise [of "Annealer_init 1000 0 700 3"]
    Annealer_weight_piecewise [of "Annealer_init (- 1) 0 700 3"]
  by (simp add: Annealer_init_def)

text \<open>
  Claim C7, as stated: for any parameters, one call of \<open>step\<close> never decreases the weight.
  It fails for a negative \<open>alpha\<close>: with \<open>T1 = 0\<close>, \<open>T2 = 1\<close>, \<open>alpha = -1\<close> the weight is \<open>0\<close>
  at step \<open>0\<close> and \<open>-1\<close> after one \<open>step\<close>.
\<close>

theorem Annealer_monotone_counterexample:
  "Annealer_weight (Annealer_init 0 0 1 (- 1)) = Inr 0 \<and>
   Annealer_weight (Annealer_step (Annealer_init 0 0 1 (- 1))) = Inr (- 1) \<and>
   (- 1 :: real) < 0"
  by (simp add: Annealer_weight_def Annealer_step_def Annealer_init_def true_div_def)

text \<open>
  Claim C7, amended: for \<open>alpha \<ge> 0\<close> the weight never decreases when the step counter is
  advanced by any number of \<open>step\<close> calls (one call is \<open>n = 1\<close>): whenever the weight is
  defined before and after, the later value is at least the earlier one; and for \<open>T1 \<noteq> T2\<close>
  it is defined at every step count.
\<close>

theorem Annealer_weight_monotone:
  assumes "0 \<le> an_alpha a"
  shows "(an_T1 a \<noteq> an_T2 a \<longrightarrow>
            (\<exists>w w'. Annealer_weight a = Inr w \<and>
                     Annealer_weight ((Annealer_step ^^ n) a) = Inr w')) \<and>
         (\<forall>w w'. Annealer_weight a = Inr w \<and>
                  Annealer_weight ((Annealer_step ^^ n) a) = Inr w' \<longrightarrow> w \<le> w')"
proof (intro conjI impI allI)
  assume ne: "an_T1 a \<noteq> an_T2 a"
  then have "an_T1 ((Annealer_step ^^ n) a) \<noteq> an_T2 ((Annealer_step ^^ n) a)"
    by (simp add: Annealer_step_funpow)
  then show "\<exists>w w'. Annealer_weight a = Inr w \<and>
                    Annealer_weight ((Annealer_step ^^ n) a) = Inr w'"
    using Annealer_weight_total [OF ne] Annealer_weight_total by blast
next
  fix w w'
  assume h: "Annealer_weight a = Inr w \<and> Annealer_weight ((Annealer_step ^^ n) a) = Inr w'"
  have "a\<lparr>an_step := an_step a\<rparr> = a" by simp
  with h have 1: "Annealer_weight (a\<lparr>an_step := an_step a\<rparr>) = Inr w" by simp
  from h have 2: "Annealer_weight (a\<lparr>an_step := an_step a + int n\<rparr>) = Inr w'"
    by (simp add: Annealer_step_funpow)
  show "w \<le> w'"
    by (rule weight_at_mono [OF assms _ 1 2]) simp
qed

theorem Annealer_weight_monotone_witness:
  "(0::real) \<le> an_alpha (Annealer_init 349 0 700 3) \<and>
   Annealer_weight (Annealer_init 349 0 700 3) = Inr (1047 / 700) \<and>
   Annealer_weight (Annealer_step (Annealer_init 349 0 700 3)) = Inr (3 / 2) \<and>
   (1047 / 700 :: real) \<le> 3 / 2"
  using Annealer_weight_monotone [of "Annealer_init 349 0 700 3" 1]
  by (simp add: Annealer_init_def Annealer_weight_def Annealer_step_def true_div_def)

text \<open>
  Claim C10. With \<open>T1 < T2\<close> the weight is computed at every step count without a division by
  zero. With \<open>T1 = T2\<close> and the step counter at that common value neither guard fires, the
  divisor \<open>T2 - T1\<close> of the ramp is zero and the evaluation raises \<open>ZeroDivisionError\<close>.
\<close>

theorem Annealer_weight_division:
  "(an_T1 a < an_T2 a \<longrightarrow> (\<exists>w. Annealer_weight a = Inr w)) \<and>
   (an_T1 a = an_T2 a \<and> an_step a = an_T1 a \<longrightarrow>
      \<not> an_step a < an_T1 a \<and> \<not> an_step a > an_T2 a \<and> an_T2 a - an_T1 a = 0 \<and>
      Annealer_weight a = Inl ZeroDivisionError)"
  by (simp add: Annealer_weight_def true_div_def)

theorem Annealer_weight_division_witness:
  "(0::int) < 700 \<and> Annealer_weight (Annealer_init 700 0 700 3) = Inr 3 \<and>
   Annealer_weight (Annealer_init 5 5 5 3) = Inl ZeroDivisionError"
  using Annealer_weight_division [of "Annealer_init 700 0 700 3"]
    Annealer_weight_division [of "Annealer_init 5 5 5 3"]
  by (simp add: Annealer_init_def Annealer_weight_def true_div_def)

section \<open>Properties of tensors, masks and the pool\<close>

lemma tensor_index_eq:
  "tensor_index xs i = (if in_range (length xs) i then Inr (xs ! wrap (length xs) i) else Inl IndexError)"
  by (auto simp: tensor_index_def in_range_def wrap_def Let_def)

lemma wrap_less: "in_range n i \<Longrightarrow> wrap n i < n"
  by (auto simp: in_range_def wrap_def)

lemma tensor_index_list_eq:
  "tensor_index_list xs idxs =
     (if list_all (in_range (length xs)) idxs
      then Inr (map (\<lambda>i. xs ! wrap (length xs) i) idxs) else Inl IndexError)"
  by (induction idxs) (auto simp: tensor_index_eq)

lemma set_nonzero: "set (nonzero m) = {i. i < length m \<and> m ! i}"
  by (auto simp: nonzero_def)

lemma distinct_nonzero: "distinct (nonzero m)"
  by (simp add: nonzero_def)

lemma sorted_nonzero: "sorted_wrt (<) (nonzero m)"
  by (simp add: nonzero_def sorted_wrt_filter)

lemma nonzero_replicate: "nonzero (replicate n True) = [0..<n]"
  by (simp add: nonzero_def filter_id_conv)

lemma length_index_put: "length (index_put m ps v) = length m"
  unfolding index_put_def by (induction ps arbitrary: m) simp_all

lemma nth_index_put:
  "j < length m \<Longrightarrow> index_put m ps v ! j = (if j \<in> set ps then v else m ! j)"
  unfolding index_put_def
proof (induction ps arbitrary: m)
  case Nil
  then show ?case by simp
next
  case (Cons p ps)
  have "length (m[p := v]) = length m" by simp
  with Cons.prems have "j < length (m[p := v])" by simp
  from Cons.IH [OF this] Cons.prems show ?case by (auto simp: nth_list_update)
qed

lemma nonzero_snoc: "nonzero (m @ [b]) = nonzero m @ (if b then [length m] else [])"
  by (auto simp: nonzero_def nth_append intro!: filter_cong)

lemma length_nonzero: "length (nonzero m) = popcount m"
  by (induction m rule: rev_induct) (simp_all add: nonzero_snoc popcount_def, simp add: nonzero_def)

lemma label_fst_translation_ok:
  assumes "translation_ok u"
  shows "translation_ok (fst (label u idxs))"
  using assms
  by (auto simp: label_def translation_ok_def Let_def length_index_put split: sum.splits option.splits)

lemma init_translation_ok:
  "UnlabelledDataset_init d lf dbg = Inr u \<Longrightarrow> translation_ok u"
  by (auto simp: UnlabelledDataset_init_def translation_ok_def nonzero_replicate split: if_splits)

lemma reset_translation_ok: "translation_ok (reset u)"
  by (simp add: reset_def translation_ok_def nonzero_replicate)

lemma label_failure_no_mutation:
  "label u idxs = (u', Inl e) \<Longrightarrow> u' = u"
  by (auto simp: label_def Let_def split: sum.splits option.splits if_splits)

lemma positions_unmasked:
  assumes "translation_ok u" "list_all (in_range (length (u_idx_mask u))) idxs"
  shows "\<forall>p \<in> set (positions_of u idxs). p < length (u_mask u) \<and> u_mask u ! p"
proof
  fix p assume "p \<in> set (positions_of u idxs)"
  then obtain i where i: "i \<in> set idxs" and p: "p = u_idx_mask u ! wrap (length (u_idx_mask u)) i"
    by (auto simp: positions_of_def)
  from i assms(2) have "wrap (length (u_idx_mask u)) i < length (u_idx_mask u)"
    by (auto simp: list_all_iff wrap_less)
  then have "p \<in> set (u_idx_mask u)" using p by simp
  then show "p < length (u_mask u) \<and> u_mask u ! p"
    using assms(1) by (simp add: translation_ok_def set_nonzero)
qed

lemma mask_read:
  assumes "\<forall>p \<in> set ps. p < length m \<and> m ! p"
  shows "tensor_index_list m (map int ps) = Inr (map (\<lambda>p. True) ps)"
  using assms by (induction ps) (auto simp: tensor_index_def)

lemma label_eq:
  assumes "translation_ok u"
  shows "label u idxs =
     (if \<not> list_all (in_range (length (u_idx_mask u))) idxs then (u, Inl IndexError)
      else if u_len u = 0 then (u, Inl AssertionError)
      else (case apply_label_fn u (Subset (Data (u_dataset u)) (positions_of u idxs)) of
              Inl e \<Rightarrow> (u, Inl e)
            | Inr labelled \<Rightarrow>
                (u\<lparr>u_mask := index_put (u_mask u) (positions_of u idxs) False,
                   u_idx_mask := nonzero (index_put (u_mask u) (positions_of u idxs) False),
                   u_len := u_len u - int (length idxs)\<rparr>, Inr labelled)))"
proof (cases "list_all (in_range (length (u_idx_mask u))) idxs")
  case False
  then show ?thesis by (simp add: label_def tensor_index_list_eq)
next
  case True
  then have 1: "tensor_index_list (u_idx_mask u) idxs = Inr (positions_of u idxs)"
    by (simp add: tensor_index_list_eq positions_of_def)
  have 2: "tensor_index_list (u_mask u) (map int (positions_of u idxs))
             = Inr (map (\<lambda>p. True) (positions_of u idxs))"
    by (rule mask_read) (rule positions_unmasked [OF assms True])
  have 3: "list_all (\<lambda>b. b) (map (\<lambda>p. True) (positions_of u idxs))"
    by (simp add: list_all_iff)
  show ?thesis
    using True 3 by (simp add: label_def 1 2 apply_label_fn_def Let_def split: sum.splits)
qed

lemma distinct_positions:
  assumes "translation_ok u" "list_all (in_range (length (u_idx_mask u))) idxs"
    and "distinct (map (wrap (length (u_idx_mask u))) idxs)"
  shows "distinct (positions_of u idxs)"
proof -
  let ?n = "length (u_idx_mask u)"
  have d: "distinct (u_idx_mask u)"
    using assms(1) by (simp add: translation_ok_def distinct_nonzero)
  have sub: "set (map (wrap ?n) idxs) \<subseteq> {..<?n}"
    using assms(2) by (auto simp: list_all_iff wrap_less)
  have "inj_on (nth (u_idx_mask u)) {..<?n}"
    using d by (simp add: inj_on_nth)
  then have inj: "inj_on (nth (u_idx_mask u)) (set (map (wrap ?n) idxs))"
    using sub by (rule inj_on_subset)
  have "distinct (map (nth (u_idx_mask u)) (map (wrap ?n) idxs))"
    by (rule distinct_map [THEN iffD2]) (rule conjI [OF assms(3) inj])
  moreover have "positions_of u idxs = map (nth (u_idx_mask u)) (map (wrap ?n) idxs)"
    by (simp add: positions_of_def)
  ultimately show ?thesis by simp
qed

lemma length_nonzero_index_put:
  assumes "distinct ps" "\<forall>p \<in> set ps. p < length m \<and> m ! p"
  shows "int (length (nonzero (index_put m ps False))) = int (length (nonzero m)) - int (length ps)"
proof -
  have s: "set (nonzero (index_put m ps False)) = set (nonzero m) - set ps"
    by (auto simp: set_nonzero length_index_put nth_index_put split: if_splits)
  have sub: "set ps \<subseteq> set (nonzero m)"
    using assms(2) by (auto simp: set_nonzero)
  have "length (nonzero (index_put m ps False)) = card (set (nonzero m) - set ps)"
    using distinct_card [OF distinct_nonzero, of "index_put m ps False"] s by simp
  also have "\<dots> = card (set (nonzero m)) - card (set ps)"
    using sub by (simp add: card_Diff_subset)
  also have "\<dots> = length (nonzero m) - length ps"
    using distinct_card [OF distinct_nonzero, of m] distinct_card [OF assms(1)] by simp
  finally have "length (nonzero (index_put m ps False)) = length (nonzero m) - length ps" .
  moreover have "length ps \<le> length (nonzero m)"
    using card_mono [OF _ sub] distinct_card [OF distinct_nonzero, of m] distinct_card [OF assms(1)]
    by simp
  ultimately show ?thesis by simp
qed

lemma label_pool_ok:
  assumes ok: "pool_ok u"
    and d: "distinct (map (wrap (length (u_idx_mask u))) idxs)"
  shows "pool_ok (fst (label u idxs))"
proof -
  have t: "translation_ok u" using ok by (simp add: pool_ok_def)
  have t': "translation_ok (fst (label u idxs))" by (rule label_fst_translation_ok [OF t])
  show ?thesis
  proof (cases "snd (label u idxs)")
    case (Inl e)
    then have "label u idxs = (fst (label u idxs), Inl e)" by (simp add: prod_eq_iff)
    then have "fst (label u idxs) = u" by (rule label_failure_no_mutation)
    then show ?thesis using ok by simp
  next
    case (Inr labelled)
    then have r: "list_all (in_range (length (u_idx_mask u))) idxs"
      using label_eq [OF t, of idxs] by (auto split: if_splits)
    have len: "length (positions_of u idxs) = length idxs" by (simp add: positions_of_def)
    have "int (length (nonzero (index_put (u_mask u) (positions_of u idxs) False)))
            = int (length (nonzero (u_mask u))) - int (length (positions_of u idxs))"
      by (rule length_nonzero_index_put [OF distinct_positions [OF t r d] positions_unmasked [OF t r]])
    then show ?thesis
      using Inr t t' ok label_eq [OF t, of idxs] len
      by (auto simp: pool_ok_def translation_ok_def split: if_splits sum.splits)
  qed
qed

lemma example_view_init: "UnlabelledDataset_init example_pool None False = Inr example_view"
  by (simp add: UnlabelledDataset_init_def example_view_def example_pool_def upt_conv_Cons)

lemma example_view_ok: "pool_ok example_view"
  by (simp add: pool_ok_def translation_ok_def example_view_def example_pool_def nonzero_def upt_conv_Cons)

section \<open>The mask invariant\<close>

text \<open>
  The translation part of the invariant holds in every state: the constructor and \<open>reset\<close>
  establish it and \<open>label\<close> keeps it (\<open>init_translation_ok\<close>, \<open>reset_translation_ok\<close>,
  \<open>label_fst_translation_ok\<close>). The reported length stays the length of the translation when
  the requested indices denote pairwise different positions (\<open>label_pool_ok\<close>).
\<close>

lemma init_pool_ok:
  "UnlabelledDataset_init d lf dbg = Inr u \<Longrightarrow> pool_ok u"
  by (auto simp: UnlabelledDataset_init_def pool_ok_def translation_ok_def nonzero_replicate
      split: if_splits)

lemma reset_pool_ok: "pool_ok (reset u)"
  by (simp add: reset_def pool_ok_def translation_ok_def nonzero_replicate)

text \<open>
  Claim C6: after construction and after every \<open>label\<close> and \<open>reset\<close> the number of true
  entries of the mask is the reported length, and the translation lists the unmasked
  positions. The code breaks the first part when one call requests an index twice: both
  reads of the mask happen before the write, so the assertion passes, one position is
  masked, and \<^verbatim>\<open>_len\<close> is decreased by \<^verbatim>\<open>len(idxs) = 2\<close>. On the fresh three-item pool,
  \<open>label [0, 0]\<close> leaves two true entries in the mask and a reported length of one.
\<close>

theorem label_duplicate_breaks_mask_invariant:
  "UnlabelledDataset_init example_pool None False = Inr example_view \<and>
   label example_view [0, 0] =
     (\<lparr>u_dataset = example_pool, u_label_fn = None, u_mask = [False, True, True],
       u_len = 1, u_idx_mask = [1, 2], debug = False\<rparr>,
      Inr (Subset (Data example_pool) [0, 0])) \<and>
   popcount [False, True, True] = 2 \<and>
   py_len (fst (label example_view [0, 0])) = Inr 1"
  by (simp add: example_view_init)
     (simp add: label_def apply_label_fn_def tensor_index_def index_put_def nonzero_def
        popcount_def py_len_def example_view_def upt_conv_Cons)

section \<open>Failure of \<open>label\<close>\<close>

text \<open>
  Claim C2, as stated: \<open>label\<close> fails for an index kept from before a prior mutation and
  for an index requested twice in one call. Neither fails. After \<open>label [0]\<close> has masked
  position \<open>0\<close>, a second \<open>label [0]\<close> resolves the index through the new translation and
  labels position \<open>1\<close>; and \<open>label [0, 0]\<close> returns a subset.
\<close>

theorem label_stale_index_counterexample:
  "label example_view [0] =
     (\<lparr>u_dataset = example_pool, u_label_fn = None, u_mask = [False, True, True],
       u_len = 2, u_idx_mask = [1, 2], debug = False\<rparr>,
      Inr (Subset (Data example_pool) [0])) \<and>
   label \<lparr>u_dataset = example_pool, u_label_fn = None, u_mask = [False, True, True],
          u_len = 2, u_idx_mask = [1, 2], debug = False\<rparr> [0] =
     (\<lparr>u_dataset = example_pool, u_label_fn = None, u_mask = [False, False, True],
       u_len = 1, u_idx_mask = [2], debug = False\<rparr>,
      Inr (Subset (Data example_pool) [1])) \<and>
   snd (label example_view [0, 0]) = Inr (Subset (Data example_pool) [0, 0])"
  by (simp add: label_def apply_label_fn_def tensor_index_def index_put_def nonzero_def
        example_view_def upt_conv_Cons)

text \<open>
  Claim C2, amended. In a state whose translation lists the unmasked positions, \<open>label\<close>
  fails with \<open>IndexError\<close> when a requested index is outside \<open>[-n, n)\<close>, \<open>n\<close> the length of the
  translation, with \<open>AssertionError\<close> when the indices are in range and the reported length
  is \<open>0\<close>, and with the labelling function's exception when that raises; the assertion on
  the mask never fails. Every failure leaves the state as it was: mask, translation and
  reported length are unchanged. With indices in range that denote pairwise different
  positions, a non-zero reported length and a labelling function that returns, it succeeds,
  masks exactly those positions, recomputes the translation and reduces the length by the
  number of indices.
\<close>

theorem label_all_or_nothing:
  assumes "translation_ok u"
  shows "(\<forall>u' e. label u idxs = (u', Inl e) \<longrightarrow> u' = u) \<and>
         (\<not> list_all (in_range (length (u_idx_mask u))) idxs \<longrightarrow>
            label u idxs = (u, Inl IndexError)) \<and>
         (list_all (in_range (length (u_idx_mask u))) idxs \<and> u_len u = 0 \<longrightarrow>
            label u idxs = (u, Inl AssertionError)) \<and>
         (\<forall>e. list_all (in_range (length (u_idx_mask u))) idxs \<and> u_len u \<noteq> 0 \<and>
              apply_label_fn u (Subset (Data (u_dataset u)) (positions_of u idxs)) = Inl e \<longrightarrow>
            label u idxs = (u, Inl e)) \<and>
         (\<forall>d. list_all (in_range (length (u_idx_mask u))) idxs \<and> u_len u \<noteq> 0 \<and>
              distinct (map (wrap (length (u_idx_mask u))) idxs) \<and>
              apply_label_fn u (Subset (Data (u_dataset u)) (positions_of u idxs)) = Inr d \<longrightarrow>
            label u idxs =
              (u\<lparr>u_mask := index_put (u_mask u) (positions_of u idxs) False,
                 u_idx_mask := nonzero (index_put (u_mask u) (positions_of u idxs) False),
                 u_len := u_len u - int (length idxs)\<rparr>, Inr d))"
  using label_failure_no_mutation [of u idxs] label_eq [OF assms, of idxs]
  by auto

theorem label_all_or_nothing_witness:
  "translation_ok example_view \<and>
   label example_view [5] = (example_view, Inl IndexError) \<and>
   label exhausted_view [] = (exhausted_view, Inl AssertionError) \<and>
   label (example_view\<lparr>u_label_fn := Some (\<lambda>d. Inl CallbackError)\<rparr>) [0] =
     (example_view\<lparr>u_label_fn := Some (\<lambda>d. Inl CallbackError)\<rparr>, Inl CallbackError) \<and>
   label example_view [2, - 3] =
     (\<lparr>u_dataset = example_pool, u_label_fn = None, u_mask = [False, True, False],
       u_len = 1, u_idx_mask = [1], debug = False\<rparr>,
      Inr (Subset (Data example_pool) [2, 0]))"
proof -
  have t: "translation_ok example_view"
    using example_view_ok by (simp add: pool_ok_def)
  have t0: "translation_ok exhausted_view"
    by (simp add: translation_ok_def exhausted_view_def example_pool_def nonzero_def upt_conv_Cons)
  have t1: "translation_ok (example_view\<lparr>u_label_fn := Some (\<lambda>d. Inl CallbackError)\<rparr>)"
    using t by (simp add: translation_ok_def)
  show ?thesis
    using t label_all_or_nothing [OF t, of "[5]"] label_all_or_nothing [OF t0, of "[]"]
      label_all_or_nothing [OF t1, of "[0]"] label_all_or_nothing [OF t, of "[2, - 3]"]
    by (simp add: in_range_def wrap_def positions_of_def apply_label_fn_def index_put_def
          nonzero_def example_view_def exhausted_view_def upt_conv_Cons)
qed

section \<open>Indexing the pool view\<close>

text \<open>
  Claim C5, as stated: indexing returns the whole item when the debug flag is set or when no
  labelling function was configured, and the feature alone otherwise. The code tests the
  opposite condition on the labelling function: without a labelling function and with debug
  off it returns the feature alone, and with a labelling function it returns the whole item.
\<close>

theorem getitem_counterexample:
  "u_label_fn example_view = None \<and> \<not> debug example_view \<and>
   getitem example_view 0 = Inr (Feature 1) \<and>
   getitem (example_view\<lparr>u_label_fn := Some Inr\<rparr>) 0 = Inr (Item (1, 10))"
  by (simp add: getitem_def fetch_def tensor_index_def example_view_def example_pool_def)

text \<open>
  Claim C5, amended: in a well-formed state, for \<open>0 \<le> i < len\<close>, indexing resolves \<open>i\<close> through
  the translation into the backing dataset; it returns the whole item if a labelling
  function was configured or the debug flag is set, and the item's first component (the
  feature) otherwise.
\<close>

theorem getitem_resolves_translation:
  assumes "pool_ok u" "0 \<le> i" "i < u_len u"
  shows "u_idx_mask u ! nat i < length (u_dataset u) \<and>
         getitem u i =
           Inr (if u_label_fn u \<noteq> None \<or> debug u
                then Item (u_dataset u ! (u_idx_mask u ! nat i))
                else Feature (fst (u_dataset u ! (u_idx_mask u ! nat i))))"
proof -
  have lt: "nat i < length (u_idx_mask u)"
    using assms by (simp add: pool_ok_def)
  then have "u_idx_mask u ! nat i \<in> set (u_idx_mask u)" by simp
  then have b: "u_idx_mask u ! nat i < length (u_dataset u)"
    using assms(1) by (auto simp: pool_ok_def translation_ok_def set_nonzero)
  have "tensor_index (u_idx_mask u) i = Inr (u_idx_mask u ! nat i)"
    using lt assms(2) by (simp add: tensor_index_def Let_def)
  then have "fetch u i = Inr (u_dataset u ! (u_idx_mask u ! nat i))"
    using b by (simp add: fetch_def)
  then show ?thesis using b by (simp add: getitem_def)
qed

theorem getitem_resolves_translation_witness:
  "pool_ok example_view \<and> (0::int) \<le> 2 \<and> 2 < u_len example_view \<and>
   getitem example_view 2 = Inr (Feature 3) \<and>
   getitem (example_view\<lparr>debug := True\<rparr>) 2 = Inr (Item (3, 30))"
proof -
  have ok': "pool_ok (example_view\<lparr>debug := True\<rparr>)"
    using example_view_ok by (simp add: pool_ok_def translation_ok_def)
  have l: "(2::int) < u_len example_view" "(2::int) < u_len (example_view\<lparr>debug := True\<rparr>)"
    by (simp_all add: example_view_def)
  show ?thesis
    using getitem_resolves_translation [OF example_view_ok _ l(1)]
      getitem_resolves_translation [OF ok' _ l(2)] example_view_ok
    by (simp add: example_view_def example_pool_def)
qed

section \<open>Conservation of the data manager's sizes\<close>

lemma tensor_index_list_length:
  "tensor_index_list xs idxs = Inr vs \<Longrightarrow> length vs = length idxs"
  by (auto simp: tensor_index_list_eq split: if_splits)

lemma label_success:
  assumes "label u idxs = (u', Inr d)"
  shows "u_len u' = u_len u - int (length idxs)"
    and "u_label_fn u' = u_label_fn u"
    and "u_dataset u' = u_dataset u"
    and "debug u' = debug u"
    and "u_len u \<noteq> 0"
    and "\<exists>ps. length ps = length idxs \<and> apply_label_fn u (Subset (Data (u_dataset u)) ps) = Inr d"
  using assms
  by (auto simp: label_def Let_def dest: tensor_index_list_length split: sum.splits if_splits)

lemma apply_label_fn_length:
  assumes "keeps_length (u_label_fn u)" "apply_label_fn u d = Inr d'"
  shows "ds_len d' = ds_len d"
  using assms by (auto simp: keeps_length_def apply_label_fn_def split: option.splits)

lemma acquire_success:
  assumes "acquire dm b t = (dm', Inr r)"
  shows "u_len (dm_unlabelled dm') = u_len (dm_unlabelled dm) - b"
    and "0 \<le> u_len (dm_unlabelled dm')"
    and "u_label_fn (dm_unlabelled dm') = u_label_fn (dm_unlabelled dm)"
    and "u_dataset (dm_unlabelled dm') = u_dataset (dm_unlabelled dm)"
    and "dm_old_labelled dm' = dm_old_labelled dm"
    and "keeps_length (u_label_fn (dm_unlabelled dm)) \<Longrightarrow> n_labelled dm' = n_labelled dm + b"
proof -
  from assms obtain n idxs u' labelled where
    n: "n_unlabelled dm = Inr n" "b \<le> n" and
    len: "int (length idxs) = b" and
    l: "label (dm_unlabelled dm) idxs = (u', Inr labelled)" and
    dm': "dm' = append_to_labelled (dm\<lparr>dm_unlabelled := u'\<rparr>) labelled"
    by (auto simp: acquire_def split: sum.splits if_splits prod.splits)
  from n have un: "u_len (dm_unlabelled dm) = n"
    by (auto simp: n_unlabelled_def py_len_def split: if_splits)
  show "u_len (dm_unlabelled dm') = u_len (dm_unlabelled dm) - b"
    using label_success(1) [OF l] len dm' by (simp add: append_to_labelled_def)
  then show "0 \<le> u_len (dm_unlabelled dm')" using un n(2) by simp
  show "u_label_fn (dm_unlabelled dm') = u_label_fn (dm_unlabelled dm)"
    using label_success(2) [OF l] dm' by (simp add: append_to_labelled_def)
  show "u_dataset (dm_unlabelled dm') = u_dataset (dm_unlabelled dm)"
    using label_success(3) [OF l] dm' by (simp add: append_to_labelled_def)
  show "dm_old_labelled dm' = dm_old_labelled dm"
    using dm' by (simp add: append_to_labelled_def)
  show "n_labelled dm' = n_labelled dm + b" if k: "keeps_length (u_label_fn (dm_unlabelled dm))"
  proof -
    from label_success(6) [OF l] obtain ps where
      ps: "length ps = length idxs"
        "apply_label_fn (dm_unlabelled dm) (Subset (Data (u_dataset (dm_unlabelled dm))) ps) = Inr labelled"
      by blast
    have "ds_len labelled = length idxs"
      using apply_label_fn_length [OF k ps(2)] ps(1) by simp
    then show ?thesis using dm' len by (simp add: n_labelled_def append_to_labelled_def)
  qed
qed

lemma acquire_seq_sizes:
  assumes "acquire_seq dm calls = Some dm'"
    and "keeps_length (u_label_fn (dm_unlabelled dm))"
    and "0 \<le> u_len (dm_unlabelled dm)"
  shows "n_labelled dm' = n_labelled dm + batch_sizes calls \<and>
         u_len (dm_unlabelled dm') = u_len (dm_unlabelled dm) - batch_sizes calls \<and>
         0 \<le> u_len (dm_unlabelled dm')"
  using assms
proof (induction calls arbitrary: dm)
  case Nil
  then show ?case by (simp add: batch_sizes_def)
next
  case (Cons c calls)
  obtain f b t where c: "c = (f, b, t)" by (cases c)
  from Cons.prems(1) c obtain dm1 r where
    a: "acquire (dm\<lparr>dm_a_fn := f\<rparr>) b t = (dm1, Inr r)" and
    rest: "acquire_seq dm1 calls = Some dm'"
    by (auto split: prod.splits sum.splits)
  have k: "keeps_length (u_label_fn (dm_unlabelled (dm\<lparr>dm_a_fn := f\<rparr>)))"
    using Cons.prems(2) by simp
  have k1: "keeps_length (u_label_fn (dm_unlabelled dm1))"
    using acquire_success(3) [OF a] Cons.prems(2) by simp
  from Cons.IH [OF rest k1 acquire_success(2) [OF a]]
  show ?case
    using acquire_success(1) [OF a] acquire_success(6) [OF a k] c
    by (simp add: batch_sizes_def n_labelled_def)
qed

text \<open>
  Claim C1. Start from a freshly constructed pool view over a pool of \<open>N\<close> items and a
  baseline labelled set. After any sequence of \<^verbatim>\<open>acquire\<close> calls that all succeed (the
  acquisition function may behave differently at each call), the labelled collection has
  grown by the sum of the batch sizes, the unlabelled view has shrunk by the same sum, and
  \<open>n_labelled - size baseline + n_unlabelled = N\<close>. A labelling function, if one was
  configured, is taken to return one labelled item for each item it is given.
\<close>

theorem acquire_conservation:
  assumes "UnlabelledDataset_init pool lf dbg = Inr u0"
    and "keeps_length lf"
    and "acquire_seq (DataManager_init baseline u0 f0) calls = Some dm"
  shows "n_labelled dm = int (ds_len baseline) + batch_sizes calls \<and>
         n_unlabelled dm = Inr (int (length pool) - batch_sizes calls) \<and>
         (\<exists>k. n_unlabelled dm = Inr k \<and>
              n_labelled dm - int (ds_len baseline) + k = int (length pool))"
proof -
  let ?dm0 = "DataManager_init baseline u0 f0"
  have u0: "u_label_fn u0 = lf" "u_len u0 = int (length pool)"
    using assms(1) by (auto simp: UnlabelledDataset_init_def split: if_splits)
  have "keeps_length (u_label_fn (dm_unlabelled ?dm0))"
    using assms(2) u0 by (simp add: DataManager_init_def)
  moreover have "0 \<le> u_len (dm_unlabelled ?dm0)"
    using u0 by (simp add: DataManager_init_def)
  ultimately have s: "n_labelled dm = n_labelled ?dm0 + batch_sizes calls \<and>
         u_len (dm_unlabelled dm) = u_len (dm_unlabelled ?dm0) - batch_sizes calls \<and>
         0 \<le> u_len (dm_unlabelled dm)"
    by (rule acquire_seq_sizes [OF assms(3)])
  have 1: "n_labelled dm = int (ds_len baseline) + batch_sizes calls"
    using s by (simp add: DataManager_init_def n_labelled_def)
  have 2: "n_unlabelled dm = Inr (int (length pool) - batch_sizes calls)"
    using s u0 by (simp add: DataManager_init_def n_unlabelled_def py_len_def)
  show ?thesis using 1 2 by simp
qed

theorem acquire_conservation_witness:
  "UnlabelledDataset_init example_pool None False = Inr example_view \<and>
   keeps_length None \<and>
   acquire_seq (DataManager_init (Data [(0, 0)]) example_view (\<lambda>u b. Inr []))
     [(\<lambda>u b. Inr [0], 1, None), (\<lambda>u b. Inr [1, 0], 2, None)] \<noteq> None \<and>
   n_labelled (the (acquire_seq (DataManager_init (Data [(0, 0)]) example_view (\<lambda>u b. Inr []))
     [(\<lambda>u b. Inr [0], 1, None), (\<lambda>u b. Inr [1, 0], 2, None)])) = 4 \<and>
   n_unlabelled (the (acquire_seq (DataManager_init (Data [(0, 0)]) example_view (\<lambda>u b. Inr []))
     [(\<lambda>u b. Inr [0], 1, None), (\<lambda>u b. Inr [1, 0], 2, None)])) = Inr 0"
proof -
  let ?calls = "[(\<lambda>(u :: (nat, nat) UnlabelledDataset) (b :: int). Inr [0] :: error + int list, 1 :: int,
                  None :: ((nat, nat) UnlabelledDataset \<Rightarrow> (nat, nat) UnlabelledDataset) option),
                 (\<lambda>u b. Inr [1, 0], 2, None)]"
  let ?dm0 = "DataManager_init (Data [(0, 0)]) example_view (\<lambda>u b. Inr [])"
  have k: "keeps_length None" by (simp add: keeps_length_def)
  obtain dm where dm: "acquire_seq ?dm0 ?calls = Some dm"
    by (simp add: acquire_def n_unlabelled_def n_labelled_def py_len_def convert_idx_def
          label_def apply_label_fn_def tensor_index_def index_put_def nonzero_def
          append_to_labelled_def DataManager_init_def example_view_def upt_conv_Cons)
  have n: "length example_pool = 3" by (simp add: example_pool_def)
  from acquire_conservation [OF example_view_init k dm]
  show ?thesis using dm k n by (simp add: example_view_init batch_sizes_def)
qed

section \<open>What \<open>acquire\<close> returns\<close>

text \<open>
  Claim C3, as stated: \<^verbatim>\<open>acquire\<close> fails unless the acquisition function returns exactly
  \<open>b\<close> distinct in-range indices, and succeeds for every \<open>b \<le> n_unlabelled\<close>. The code checks
  the shape of the returned array only. With an acquisition function that returns \<open>[0, 0]\<close>
  for \<open>b = 2\<close> on the three-item pool, \<^verbatim>\<open>acquire\<close> succeeds and returns the absolute indices
  \<open>[0, 0]\<close>, which are not distinct. And on an exhausted pool \<^verbatim>\<open>acquire(0)\<close> fails, although
  \<open>0 \<le> n_unlabelled\<close> and the acquisition function returns the empty array: \<^verbatim>\<open>label\<close> asserts
  that the pool is not empty.
\<close>

theorem acquire_duplicates_counterexample:
  "acquire (DataManager_init (Data []) example_view repeating_a_fn) 2 None =
     (\<lparr>dm_old_labelled = Data [],
       dm_labelled = ConcatDataset (Data []) (Subset (Data example_pool) [0, 0]),
       dm_unlabelled = \<lparr>u_dataset = example_pool, u_label_fn = None,
                         u_mask = [False, True, True], u_len = 1, u_idx_mask = [1, 2],
                         debug = False\<rparr>,
       dm_a_fn = repeating_a_fn\<rparr>,
      Inr ([0, 0], Subset (Data example_pool) [0, 0])) \<and>
   \<not> distinct [0 :: nat, 0] \<and>
   n_unlabelled (DataManager_init (Data []) exhausted_view empty_a_fn) = Inr 0 \<and>
   acquire (DataManager_init (Data []) exhausted_view empty_a_fn) 0 None =
     (DataManager_init (Data []) exhausted_view empty_a_fn, Inl AssertionError)"
  by (simp add: acquire_def n_unlabelled_def py_len_def convert_idx_def
        label_def apply_label_fn_def tensor_index_def index_put_def nonzero_def
        append_to_labelled_def DataManager_init_def example_view_def exhausted_view_def
        repeating_a_fn_def empty_a_fn_def upt_conv_Cons)

lemma positions_of_nonneg:
  assumes "\<forall>i \<in> set idxs. 0 \<le> i"
  shows "positions_of u idxs = map (\<lambda>i. u_idx_mask u ! nat i) idxs"
  using assms by (simp add: positions_of_def wrap_def)

lemma wrap_nonneg_distinct:
  assumes "\<forall>i \<in> set idxs. 0 \<le> i" "distinct idxs"
  shows "distinct (map (wrap n) idxs)"
proof -
  have "inj_on (wrap n) (set idxs)"
  proof (rule inj_onI)
    fix x y assume "x \<in> set idxs" "y \<in> set idxs" "wrap n x = wrap n y"
    moreover from this assms(1) have "0 \<le> x" "0 \<le> y" by auto
    ultimately show "x = y" by (simp add: wrap_def)
  qed
  with assms(2) show ?thesis by (simp add: distinct_map)
qed

lemma positions_below:
  assumes "translation_ok u" "list_all (in_range (length (u_idx_mask u))) idxs"
  shows "\<forall>p \<in> set (positions_of u idxs). p < length (u_dataset u)"
  using positions_unmasked [OF assms] assms(1) by (simp add: translation_ok_def)

lemma acquire_eq:
  assumes ok: "pool_ok (dm_unlabelled dm)"
  shows "acquire dm b t =
     (if u_len (dm_unlabelled dm) < b then (dm, Inl AssertionError)
      else (case dm_a_fn dm (scored_view dm t) b of
              Inl e \<Rightarrow> (dm, Inl e)
            | Inr idxs \<Rightarrow>
                if int (length idxs) \<noteq> b then (dm, Inl AssertionError)
                else if \<not> list_all (in_range (length (u_idx_mask (dm_unlabelled dm)))) idxs
                  then (dm, Inl IndexError)
                else (case label (dm_unlabelled dm) idxs of
                        (u', Inl e) \<Rightarrow> (dm, Inl e)
                      | (u', Inr labelled) \<Rightarrow>
                          (dm\<lparr>dm_unlabelled := u',
                              dm_labelled := ConcatDataset (dm_labelled dm) labelled\<rparr>,
                           Inr (positions_of (dm_unlabelled dm) idxs, labelled)))))"
proof -
  have n: "n_unlabelled dm = Inr (u_len (dm_unlabelled dm))"
    using ok by (simp add: n_unlabelled_def py_len_def pool_ok_def)
  have same: "dm\<lparr>dm_unlabelled := u'\<rparr> = dm" if "label (dm_unlabelled dm) idxs = (u', Inl e)"
    for u' idxs e
    using label_failure_no_mutation [OF that] by simp
  show ?thesis
    using same
    by (auto simp: acquire_def n scored_view_def convert_idx_def tensor_index_list_eq
          positions_of_def append_to_labelled_def
        split: sum.splits prod.splits option.splits)
qed

text \<open>
  Claim C3, amended. Let the pool view be well formed. If \<open>b \<le> n_unlabelled\<close>, the pool is
  not exhausted, the acquisition function returns \<open>b\<close> distinct logical indices in
  \<open>[0, n_unlabelled)\<close> and the labelling function (if any) returns, then \<^verbatim>\<open>acquire\<close> succeeds and
  returns exactly \<open>b\<close> distinct absolute indices, each in \<open>[0, N)\<close>: the translations of the
  chosen logical indices through the translation as it was before \<^verbatim>\<open>label\<close> changed it. It
  fails with \<open>AssertionError\<close> if \<open>b\<close> exceeds \<open>n_unlabelled\<close> or if the acquisition function
  returns a number of indices other than \<open>b\<close>, and with \<open>IndexError\<close> if a returned index is
  outside \<open>[-n, n)\<close>; in each of these cases the manager is unchanged.
\<close>

theorem acquire_returns_translations:
  assumes u: "dm_unlabelled dm = u" and ok: "pool_ok u"
  shows "(\<forall>idxs d.
            b \<le> u_len u \<and> u_len u \<noteq> 0 \<and>
            dm_a_fn dm (scored_view dm t) b = Inr idxs \<and> int (length idxs) = b \<and>
            (\<forall>i \<in> set idxs. 0 \<le> i \<and> i < u_len u) \<and> distinct idxs \<and>
            apply_label_fn u (Subset (Data (u_dataset u)) (map (\<lambda>i. u_idx_mask u ! nat i) idxs)) = Inr d
          \<longrightarrow>
            acquire dm b t =
              (dm\<lparr>dm_unlabelled := fst (label u idxs),
                  dm_labelled := ConcatDataset (dm_labelled dm) d\<rparr>,
               Inr (map (\<lambda>i. u_idx_mask u ! nat i) idxs, d)) \<and>
            int (length (map (\<lambda>i. u_idx_mask u ! nat i) idxs)) = b \<and>
            distinct (map (\<lambda>i. u_idx_mask u ! nat i) idxs) \<and>
            (\<forall>p \<in> set (map (\<lambda>i. u_idx_mask u ! nat i) idxs). p < length (u_dataset u))) \<and>
         (u_len u < b \<longrightarrow> acquire dm b t = (dm, Inl AssertionError)) \<and>
         (\<forall>idxs. b \<le> u_len u \<and> dm_a_fn dm (scored_view dm t) b = Inr idxs \<and>
                 int (length idxs) \<noteq> b
          \<longrightarrow> acquire dm b t = (dm, Inl AssertionError)) \<and>
         (\<forall>idxs. b \<le> u_len u \<and> dm_a_fn dm (scored_view dm t) b = Inr idxs \<and>
                 int (length idxs) = b \<and>
                 \<not> list_all (in_range (length (u_idx_mask u))) idxs
          \<longrightarrow> acquire dm b t = (dm, Inl IndexError))"
proof -
  have ok': "pool_ok (dm_unlabelled dm)" using u ok by simp
  have tr: "translation_ok u" and len: "u_len u = int (length (u_idx_mask u))"
    using ok by (simp_all add: pool_ok_def)
  note eq = acquire_eq [OF ok', of b t, unfolded u]
  have fail1: "u_len u < b \<longrightarrow> acquire dm b t = (dm, Inl AssertionError)"
    using eq by simp
  have fail2: "acquire dm b t = (dm, Inl AssertionError)"
    if "b \<le> u_len u \<and> dm_a_fn dm (scored_view dm t) b = Inr idxs \<and> int (length idxs) \<noteq> b"
    for idxs
    using eq that by simp
  have fail3: "acquire dm b t = (dm, Inl IndexError)"
    if "b \<le> u_len u \<and> dm_a_fn dm (scored_view dm t) b = Inr idxs \<and> int (length idxs) = b \<and>
        \<not> list_all (in_range (length (u_idx_mask u))) idxs"
    for idxs
    using eq that by simp
  have succ: "acquire dm b t =
              (dm\<lparr>dm_unlabelled := fst (label u idxs),
                  dm_labelled := ConcatDataset (dm_labelled dm) d\<rparr>,
               Inr (map (\<lambda>i. u_idx_mask u ! nat i) idxs, d)) \<and>
            int (length (map (\<lambda>i. u_idx_mask u ! nat i) idxs)) = b \<and>
            distinct (map (\<lambda>i. u_idx_mask u ! nat i) idxs) \<and>
            (\<forall>p \<in> set (map (\<lambda>i. u_idx_mask u ! nat i) idxs). p < length (u_dataset u))"
    if h: "b \<le> u_len u \<and> u_len u \<noteq> 0 \<and>
            dm_a_fn dm (scored_view dm t) b = Inr idxs \<and> int (length idxs) = b \<and>
            (\<forall>i \<in> set idxs. 0 \<le> i \<and> i < u_len u) \<and> distinct idxs \<and>
            apply_label_fn u (Subset (Data (u_dataset u)) (map (\<lambda>i. u_idx_mask u ! nat i) idxs)) = Inr d"
    for idxs d
  proof -
    have nn: "\<forall>i \<in> set idxs. 0 \<le> i" using h by simp
    have r: "list_all (in_range (length (u_idx_mask u))) idxs"
      using h len by (auto simp: list_all_iff in_range_def)
    have p: "positions_of u idxs = map (\<lambda>i. u_idx_mask u ! nat i) idxs"
      by (rule positions_of_nonneg [OF nn])
    have d: "distinct (map (wrap (length (u_idx_mask u))) idxs)"
      using h by (intro wrap_nonneg_distinct nn) simp
    have l: "label u idxs =
               (u\<lparr>u_mask := index_put (u_mask u) (positions_of u idxs) False,
                  u_idx_mask := nonzero (index_put (u_mask u) (positions_of u idxs) False),
                  u_len := u_len u - int (length idxs)\<rparr>, Inr d)"
      using label_eq [OF tr, of idxs] r h p by simp
    have a: "acquire dm b t =
              (dm\<lparr>dm_unlabelled := fst (label u idxs),
                  dm_labelled := ConcatDataset (dm_labelled dm) d\<rparr>,
               Inr (map (\<lambda>i. u_idx_mask u ! nat i) idxs, d))"
      using eq h r p by (simp add: l)
    show ?thesis
      using a h distinct_positions [OF tr r d] positions_below [OF tr r] by (simp add: p)
  qed
  show ?thesis
    using fail1 fail2 fail3 succ by blast
qed

theorem acquire_returns_translations_witness:
  "pool_ok example_view \<and>
   acquire (DataManager_init (Data []) example_view (\<lambda>u b. Inr [2, 0])) 2 None =
     (\<lparr>dm_old_labelled = Data [],
       dm_labelled = ConcatDataset (Data []) (Subset (Data example_pool) [2, 0]),
       dm_unlabelled = \<lparr>u_dataset = example_pool, u_label_fn = None,
                         u_mask = [False, True, False], u_len = 1, u_idx_mask = [1],
                         debug = False\<rparr>,
       dm_a_fn = \<lambda>u b. Inr [2, 0]\<rparr>,
      Inr ([2, 0], Subset (Data example_pool) [2, 0])) \<and>
   snd (acquire (DataManager_init (Data []) example_view (\<lambda>u b. Inr [2, 0])) 4 None)
     = Inl AssertionError \<and>
   snd (acquire (DataManager_init (Data []) example_view (\<lambda>u b. Inr [2, 0])) 1 None)
     = Inl AssertionError \<and>
   snd (acquire (DataManager_init (Data []) example_view (\<lambda>u b. Inr [3])) 1 None)
     = Inl IndexError"
proof -
  let ?dm = "\<lambda>f. DataManager_init (Data []) example_view f"
  have u: "dm_unlabelled (?dm f) = example_view" for f
    by (simp add: DataManager_init_def)
  have l: "label example_view [2, 0] =
     (\<lparr>u_dataset = example_pool, u_label_fn = None, u_mask = [False, True, False],
       u_len = 1, u_idx_mask = [1], debug = False\<rparr>,
      Inr (Subset (Data example_pool) [2, 0]))"
    by (simp add: label_def apply_label_fn_def tensor_index_def index_put_def nonzero_def
          example_view_def upt_conv_Cons)
  have f: "u_len example_view = 3" "u_idx_mask example_view = [0, 1, 2]"
    "u_dataset example_view = example_pool" "u_label_fn example_view = None"
    "length example_pool = 3"
    by (simp_all add: example_view_def example_pool_def)
  show ?thesis
    using acquire_returns_translations [OF u example_view_ok, of 2 "\<lambda>u b. Inr [2, 0]" None]
      acquire_returns_translations [OF u example_view_ok, of 4 "\<lambda>u b. Inr [2, 0]" None]
      acquire_returns_translations [OF u example_view_ok, of 1 "\<lambda>u b. Inr [2, 0]" None]
      acquire_returns_translations [OF u example_view_ok, of 1 "\<lambda>u b. Inr [3]" None]
      example_view_ok
    by (simp add: l f scored_view_def in_range_def apply_label_fn_def DataManager_init_def)
qed

section \<open>The scoped toggle \<open>true_labels\<close>\<close>

lemma scope_body_frame:
  assumes "scope_body f"
  shows "\<forall>u u' rs. f u = (u', Inr rs) \<longrightarrow>
           u' = u \<and> (debug u \<longrightarrow> (\<forall>r \<in> set rs. \<exists>item. r = Item item))"
  using assms
proof (induction rule: scope_body.induct)
  case (indexing i)
  show ?case
    by (auto simp: index_body_def getitem_def split: sum.splits)
next
  case (sequence f g)
  show ?case
  proof (intro allI impI)
    fix u u' rs
    assume h: "then_body f g u = (u', Inr rs)"
    then obtain u1 rs1 rs2 where
      f: "f u = (u1, Inr rs1)" and g: "g u1 = (u', Inr rs2)" and rs: "rs = rs1 @ rs2"
      by (auto simp: then_body_def split: prod.splits sum.splits)
    from sequence.IH(1) f have 1: "u1 = u" "debug u \<longrightarrow> (\<forall>r \<in> set rs1. \<exists>item. r = Item item)"
      by blast+
    from sequence.IH(2) g have 2: "u' = u1" "debug u1 \<longrightarrow> (\<forall>r \<in> set rs2. \<exists>item. r = Item item)"
      by blast+
    show "u' = u \<and> (debug u \<longrightarrow> (\<forall>r \<in> set rs. \<exists>item. r = Item item))"
      using 1 2 rs by auto
  qed
next
  case (nested f)
  show ?case
  proof (intro allI impI)
    fix u u' rs
    assume h: "true_labels f u = (u', Inr rs)"
    show "u' = u \<and> (debug u \<longrightarrow> (\<forall>r \<in> set rs. \<exists>item. r = Item item))"
    proof (cases "debug u")
      case True
      then have "f u = (u', Inr rs)" using h by (simp add: true_labels_def)
      with nested.IH show ?thesis by blast
    next
      case False
      then obtain u1 where f: "f (u\<lparr>debug := True\<rparr>) = (u1, Inr rs)" and u': "u' = u1\<lparr>debug := False\<rparr>"
        using h by (auto simp: true_labels_def split: prod.splits sum.splits)
      from nested.IH f have "u1 = u\<lparr>debug := True\<rparr>" by blast
      then have "u' = u" using u' False by simp
      then show ?thesis using False by simp
    qed
  qed
qed

text \<open>
  The path on which the body returns. For a body made of reads and nested scopes that ends
  without raising, the scope leaves the debug flag (and the whole view) exactly as it was on
  entry, for either prior value of the flag and under arbitrary nesting of scopes; inside
  the scope the flag is set, so every read yields the whole pool item, feature and label.
\<close>

lemma true_labels_normal_exit:
  assumes "scope_body body" "true_labels body u = (u', Inr rs)"
  shows "debug u' = debug u \<and> u' = u \<and> (\<forall>r \<in> set rs. \<exists>item. r = Item item)"
proof (cases "debug u")
  case True
  then have "body u = (u', Inr rs)" using assms(2) by (simp add: true_labels_def)
  with scope_body_frame [OF assms(1)] True show ?thesis by blast
next
  case False
  then obtain u1 where f: "body (u\<lparr>debug := True\<rparr>) = (u1, Inr rs)" and u': "u' = u1\<lparr>debug := False\<rparr>"
    using assms(2) by (auto simp: true_labels_def split: prod.splits sum.splits)
  from scope_body_frame [OF assms(1)] f
  have 1: "u1 = u\<lparr>debug := True\<rparr>" and 2: "\<forall>r \<in> set rs. \<exists>item. r = Item item"
    by auto
  from 1 u' False have "u' = u" by simp
  with 2 show ?thesis by simp
qed

lemma true_labels_normal_exit_example:
  "scope_body (then_body (index_body 0) (true_labels (index_body 1)) :: (nat, nat) body) \<and>
   true_labels (then_body (index_body 0) (true_labels (index_body 1))) example_view =
     (example_view, Inr [Item (1, 10), Item (2, 20)]) \<and>
   true_labels (then_body (index_body 0) (true_labels (index_body 1)))
       (example_view\<lparr>debug := True\<rparr>) =
     (example_view\<lparr>debug := True\<rparr>, Inr [Item (1, 10), Item (2, 20)]) \<and>
   getitem example_view 0 = Inr (Feature 1)"
proof -
  let ?body = "then_body (index_body 0) (true_labels (index_body 1)) :: (nat, nat) body"
  have s: "scope_body ?body"
    by (intro scope_body.intros)
  have e1: "true_labels ?body example_view = (example_view, Inr [Item (1, 10), Item (2, 20)])"
    by (simp add: true_labels_def then_body_def index_body_def getitem_def fetch_def
          tensor_index_def example_view_def example_pool_def)
  have e2: "true_labels ?body (example_view\<lparr>debug := True\<rparr>) =
              (example_view\<lparr>debug := True\<rparr>, Inr [Item (1, 10), Item (2, 20)])"
    by (simp add: true_labels_def then_body_def index_body_def getitem_def fetch_def
          tensor_index_def example_view_def example_pool_def)
  have e3: "getitem example_view 0 = Inr (Feature 1)"
    by (simp add: getitem_def fetch_def tensor_index_def example_view_def example_pool_def)
  show ?thesis
    using true_labels_normal_exit [OF s e1] true_labels_normal_exit [OF s e2] s e1 e2 e3
    by simp
qed

text \<open>
  Claim C8: the scope restores the prior value of the flag on exit, for every prior value
  and under any nesting, and the flag is set inside the scope. The code restores it on the
  path above only. The generator has no \<^verbatim>\<open>try\<close>/\<^verbatim>\<open>finally\<close>, so when the body raises, the
  assignment after \<^verbatim>\<open>yield\<close> is not executed. On the three-item pool with the flag off,
  where \<^verbatim>\<open>pool[0]\<close> is the feature \<open>1\<close>, the statement \<^verbatim>\<open>with pool.true_labels(): pool[7]\<close>
  ends with \<open>IndexError\<close> and leaves the flag on; \<^verbatim>\<open>pool[0]\<close> then yields the item with its
  label, outside any scope.
\<close>

theorem true_labels_exception_leaves_flag_set:
  "\<not> debug example_view \<and>
   getitem example_view 0 = Inr (Feature 1) \<and>
   true_labels (index_body 7) example_view = (example_view\<lparr>debug := True\<rparr>, Inl IndexError) \<and>
   debug (fst (true_labels (index_body 7) example_view)) \<and>
   getitem (fst (true_labels (index_body 7) example_view)) 0 = Inr (Item (1, 10))"
  by (simp add: true_labels_def index_body_def getitem_def fetch_def tensor_index_def
        example_view_def example_pool_def)

text \<open>
  Which branch of \<^verbatim>\<open>__getitem__\<close> is taken at that input: the pool has no labelling function,
  so before the scope neither disjunct of its test holds, and after the failed scope the
  debug flag alone makes it return the whole item.
\<close>

theorem true_labels_exception_leaves_flag_set_witness:
  "u_label_fn example_view = None \<and> \<not> debug example_view \<and>
   u_label_fn (fst (true_labels (index_body 7) example_view)) = None \<and>
   debug (fst (true_labels (index_body 7) example_view)) \<and>
   getitem (fst (true_labels (index_body 7) example_view)) 0 = Inr (Item (1, 10))"
proof -
  have l: "u_label_fn example_view = None"
    by (simp add: example_view_def)
  have f: "fst (true_labels (index_body 7) example_view) = example_view\<lparr>debug := True\<rparr>"
    using true_labels_exception_leaves_flag_set by simp
  have l': "u_label_fn (fst (true_labels (index_body 7) example_view)) = None"
    using l by (simp add: f)
  show ?thesis
    using true_labels_exception_leaves_flag_set l l' by blast
qed

section \<open>The max-entropy acquisition function\<close>

text \<open>
  Claim C9, as stated: on a pool view of size \<open>n\<close> and for \<open>b \<le> n\<close> the call returns \<open>b\<close>
  indices. On an empty pool the loader yields no batch and \<^verbatim>\<open>torch.cat\<close> raises on the empty
  list, so the call fails for \<open>n = 0\<close>, \<open>b = 0\<close>. And a negative \<open>b\<close> satisfies \<open>b \<le> n\<close>:
  \<^verbatim>\<open>result[:-1]\<close> returns \<open>n - 1\<close> indices.
\<close>

theorem MaxEnt_empty_pool_counterexample:
  "MaxEnt_call Finite example_argsort example_maxent [] 0 = (example_maxent, Inl RuntimeError) \<and>
   snd (MaxEnt_call Finite example_argsort example_maxent [1 / 2, 3, 2] (- 1)) = Inr [1, 2] \<and>
   length [1 :: nat, 2] = 2"
  by (simp add: MaxEnt_call_def torch_cat_def py_prefix_def example_maxent_def
        example_argsort_def)

lemma descending_argsort_length:
  assumes "descending_argsort s p"
  shows "length p = length s"
proof -
  from assms have d: "distinct p" and s: "set p = {..<length s}"
    by (simp_all add: descending_argsort_def)
  have "card (set p) = length p" using d by (rule distinct_card)
  moreover have "card (set p) = length s" using s by simp
  ultimately show ?thesis by simp
qed

lemma top_prefix:
  assumes p: "descending_argsort s p" and k: "k \<le> length s"
  shows "length (take k p) = k"
    and "distinct (take k p)"
    and "\<forall>i \<in> set (take k p). i < length s"
    and "sorted_wrt (\<lambda>i j. s ! j \<le> s ! i) (take k p)"
    and "\<forall>i \<in> set (take k p). \<forall>j. j < length s \<and> j \<notin> set (take k p) \<longrightarrow> s ! j \<le> s ! i"
proof -
  show "length (take k p) = k"
    using descending_argsort_length [OF p] k by simp
  show "distinct (take k p)"
    using p by (simp add: descending_argsort_def)
  have sub: "set (take k p) \<subseteq> set p" by (rule set_take_subset)
  then show "\<forall>i \<in> set (take k p). i < length s"
    using p by (auto simp: descending_argsort_def)
  have sw: "sorted_wrt (\<lambda>i j. s ! j \<le> s ! i) (take k p @ drop k p)"
    using p by (simp add: descending_argsort_def)
  then show "sorted_wrt (\<lambda>i j. s ! j \<le> s ! i) (take k p)"
    unfolding sorted_wrt_append by blast
  show "\<forall>i \<in> set (take k p). \<forall>j. j < length s \<and> j \<notin> set (take k p) \<longrightarrow> s ! j \<le> s ! i"
  proof (intro ballI allI impI)
    fix i j assume i: "i \<in> set (take k p)" and j: "j < length s \<and> j \<notin> set (take k p)"
    then have "j \<in> set p" using p by (simp add: descending_argsort_def)
    then have "j \<in> set (take k p) \<union> set (drop k p)"
      using set_append [of "take k p" "drop k p"] by simp
    with j have "j \<in> set (drop k p)" by blast
    with sw i show "s ! j \<le> s ! i"
      unfolding sorted_wrt_append by blast
  qed
qed

text \<open>
  Claim C9, amended. Let the pool view have \<open>n \<ge> 1\<close> items, let the prediction function
  return one row for each of them, and let \<open>0 \<le> b \<le> n\<close>. If every computed entropy is finite,
  the call returns exactly \<open>b\<close> distinct logical indices in \<open>[0, n)\<close>, ordered so that their
  entropies are in descending order, and no index left out has a larger entropy than a
  returned one (a top-\<open>b\<close>); it stores the score vector of all \<open>n\<close> items in
  \<open>recent_score\<close>. If some computed entropy is not finite, the call fails and stores nothing.
\<close>

theorem MaxEnt_top_b:
  assumes n: "X_pool \<noteq> []"
    and rows: "length (concat (map (me_pred_fn m) (me_loader m X_pool))) = length X_pool"
    and e: "entropy = entropy_of row_entropy m X_pool"
    and b: "0 \<le> b" "b \<le> int (length X_pool)"
  shows "(list_all isfinite entropy \<and>
          descending_argsort (map finite_value entropy) (argsort (map finite_value entropy)) \<longrightarrow>
            (\<exists>idxs. MaxEnt_call row_entropy argsort m X_pool b =
                       (m\<lparr>recent_score := Some entropy\<rparr>, Inr idxs) \<and>
                    length entropy = length X_pool \<and>
                    int (length idxs) = b \<and> distinct idxs \<and>
                    (\<forall>i \<in> set idxs. i < length X_pool) \<and>
                    sorted_wrt (\<lambda>i j. finite_value (entropy ! j) \<le> finite_value (entropy ! i)) idxs \<and>
                    (\<forall>i \<in> set idxs. \<forall>j. j < length X_pool \<and> j \<notin> set idxs \<longrightarrow>
                        finite_value (entropy ! j) \<le> finite_value (entropy ! i)))) \<and>
         (\<not> list_all isfinite entropy \<longrightarrow>
            MaxEnt_call row_entropy argsort m X_pool b = (m, Inl AssertionError))"
proof -
  let ?s = "map finite_value entropy"
  let ?p = "argsort ?s"
  have len: "length entropy = length X_pool"
    using e rows by (simp add: entropy_of_def)
  have ne: "map (me_pred_fn m) (me_loader m X_pool) \<noteq> []"
    using rows n by auto
  have k: "nat b \<le> length ?s" using b len by simp
  have nth: "?s ! i = finite_value (entropy ! i)" if "i < length X_pool" for i
    using that len by simp
  have call: "MaxEnt_call row_entropy argsort m X_pool b =
          (if list_all isfinite entropy
           then (m\<lparr>recent_score := Some entropy\<rparr>, Inr (take (nat b) ?p))
           else (m, Inl AssertionError))"
    using ne rows b(1) len e
    by (simp add: MaxEnt_call_def torch_cat_def py_prefix_def entropy_of_def Let_def)
  have succ: "\<exists>idxs. MaxEnt_call row_entropy argsort m X_pool b =
                       (m\<lparr>recent_score := Some entropy\<rparr>, Inr idxs) \<and>
                    length entropy = length X_pool \<and>
                    int (length idxs) = b \<and> distinct idxs \<and>
                    (\<forall>i \<in> set idxs. i < length X_pool) \<and>
                    sorted_wrt (\<lambda>i j. finite_value (entropy ! j) \<le> finite_value (entropy ! i)) idxs \<and>
                    (\<forall>i \<in> set idxs. \<forall>j. j < length X_pool \<and> j \<notin> set idxs \<longrightarrow>
                        finite_value (entropy ! j) \<le> finite_value (entropy ! i))"
    if fin: "list_all isfinite entropy" and arg: "descending_argsort ?s ?p"
  proof -
    note t = top_prefix [OF arg k]
    have 1: "int (length (take (nat b) ?p)) = b" using t(1) b(1) by simp
    have 3: "\<forall>i \<in> set (take (nat b) ?p). i < length X_pool" using t(3) len by simp
    have 4: "sorted_wrt (\<lambda>i j. finite_value (entropy ! j) \<le> finite_value (entropy ! i))
               (take (nat b) ?p)"
    proof (rule sorted_wrt_mono_rel [OF _ t(4)])
      fix i j assume "i \<in> set (take (nat b) ?p)" "j \<in> set (take (nat b) ?p)" "?s ! j \<le> ?s ! i"
      then show "finite_value (entropy ! j) \<le> finite_value (entropy ! i)"
        using 3 nth by simp
    qed
    have 5: "\<forall>i \<in> set (take (nat b) ?p). \<forall>j. j < length X_pool \<and> j \<notin> set (take (nat b) ?p) \<longrightarrow>
               finite_value (entropy ! j) \<le> finite_value (entropy ! i)"
    proof (intro ballI allI impI)
      fix i j assume i: "i \<in> set (take (nat b) ?p)"
        and j: "j < length X_pool \<and> j \<notin> set (take (nat b) ?p)"
      from j len have "j < length ?s \<and> j \<notin> set (take (nat b) ?p)" by simp
      with t(5) i have "?s ! j \<le> ?s ! i" by blast
      then show "finite_value (entropy ! j) \<le> finite_value (entropy ! i)"
        using i j 3 nth by simp
    qed
    show ?thesis
      using call fin len 1 t(2) 3 4 5 by simp
  qed
  show ?thesis
    using call succ by auto
qed

theorem MaxEnt_top_b_witness:
  "descending_argsort [1 / 2, 3, 2] (example_argsort [1 / 2, 3, 2]) \<and>
   MaxEnt_call example_row_entropy example_argsort example_maxent [1 / 2, 3, 2] 2 =
     (example_maxent\<lparr>recent_score := Some [Finite (1 / 2), Finite 3, Finite 2]\<rparr>, Inr [1, 2]) \<and>
   MaxEnt_call example_row_entropy example_argsort example_maxent [1 / 2, 0, 2] 2 =
     (example_maxent, Inl AssertionError)"
proof -
  have e1: "entropy_of example_row_entropy example_maxent [1 / 2, 3, 2]
              = [Finite (1 / 2), Finite 3, Finite 2]"
    by (simp add: entropy_of_def example_row_entropy_def example_maxent_def)
  have e2: "entropy_of example_row_entropy example_maxent [1 / 2, 0, 2]
              = [Finite (1 / 2), NonFinite, Finite 2]"
    by (simp add: entropy_of_def example_row_entropy_def example_maxent_def)
  have r: "length (concat (map (me_pred_fn example_maxent) (me_loader example_maxent xs)))
             = length xs" for xs :: "real list"
    by (induction xs) (simp_all add: example_maxent_def)
  have a: "descending_argsort [1 / 2, 3, 2] (example_argsort [1 / 2, 3, 2])"
    by (simp add: descending_argsort_def example_argsort_def numeral_eq_Suc lessThan_Suc
          insert_commute)
  have 1: "MaxEnt_call example_row_entropy example_argsort example_maxent [1 / 2, 3, 2] 2 =
             (example_maxent\<lparr>recent_score := Some [Finite (1 / 2), Finite 3, Finite 2]\<rparr>,
              Inr [1, 2])"
    using MaxEnt_top_b [where X_pool = "[1 / 2, 3, 2]" and m = example_maxent
        and row_entropy = example_row_entropy and argsort = example_argsort and b = 2,
        OF _ r e1 [symmetric]] a
    by (simp add: MaxEnt_call_def torch_cat_def py_prefix_def example_maxent_def
          example_row_entropy_def example_argsort_def)
  have 2: "MaxEnt_call example_row_entropy example_argsort example_maxent [1 / 2, 0, 2] 2 =
             (example_maxent, Inl AssertionError)"
    using MaxEnt_top_b [where X_pool = "[1 / 2, 0, 2]" and m = example_maxent
        and row_entropy = example_row_entropy and argsort = example_argsort and b = 2,
        OF _ r e2 [symmetric]]
    by simp
  show ?thesis using a 1 2 by simp
qed

end
